theory Spec2Isabelle
  imports Complex_Main
begin

section \<open>Conventions of the model\<close>

text \<open>
  The tensors of \<^verbatim>\<open>DDPM_Diff.py\<close> are modelled over the real numbers. A translation or
  tangent tensor of shape (B, L, 3) is a list (batch) of lists (sequence) of triples, a
  rotation tensor of shape (B, L, 3, 3) a list of lists of 3x3 matrices given by their rows.
  A floating-point operation whose result is not a finite number (a division by zero, the
  square root of a negative number, the mean of an empty tensor) yields \<open>Inl NonFinite\<close>
  for the whole call; an index outside a tensor yields \<open>Inl IndexError\<close>; operands of an
  elementwise operation whose shapes differ yield \<open>Inl ShapeError\<close> (broadcasting between
  different shapes is outside the model). The ambient random generator is the stream of the
  numbers it will deliver; a call takes its draws from the front of the stream and returns
  the rest. The score model is a function of its arguments. The last entry of the shape
  passed to the sampler is 3 and is left out. The source computes in 32-bit floating point:
  where a statement below bounds a numerical error, the bound is a tolerance that leaves
  room for the rounding of the source, not the exact value of real arithmetic.
\<close>

datatype error = NonFinite | IndexError | ShapeError | ZeroDivisionError

type_synonym rng = "nat \<Rightarrow> real"

definition bindE :: "error + 'a \<Rightarrow> ('a \<Rightarrow> error + 'b) \<Rightarrow> error + 'b" where
  "bindE m f = (case m of Inl e \<Rightarrow> Inl e | Inr x \<Rightarrow> f x)"

definition reset_rng :: "rng \<Rightarrow> error + ('a \<times> rng) \<Rightarrow> error + ('a \<times> rng)" where
  \<comment> \<open>the result of a call, with the generator it returns replaced\<close>
  "reset_rng g r = (case r of Inl e \<Rightarrow> Inl e | Inr (x, _) \<Rightarrow> Inr (x, g))"

definition fdiv :: "real \<Rightarrow> real \<Rightarrow> error + real" where
  "fdiv x y = (if y = 0 then Inl NonFinite else Inr (x / y))"

definition fsqrt :: "real \<Rightarrow> error + real" where
  "fsqrt x = (if x < 0 then Inl NonFinite else Inr (sqrt x))"

fun mapE :: "('a \<Rightarrow> error + 'b) \<Rightarrow> 'a list \<Rightarrow> error + 'b list" where
  "mapE f [] = Inr []"
| "mapE f (x # xs) =
     (case f x of Inl e \<Rightarrow> Inl e
      | Inr y \<Rightarrow> (case mapE f xs of Inl e \<Rightarrow> Inl e | Inr ys \<Rightarrow> Inr (y # ys)))"

definition clamp_min :: "real \<Rightarrow> real \<Rightarrow> real" where
  "clamp_min lo x = max lo x"

definition clamp :: "real \<Rightarrow> real \<Rightarrow> real \<Rightarrow> real" where
  "clamp lo hi x = min hi (max lo x)"

type_synonym vec3 = "real \<times> real \<times> real"
type_synonym mat3 = "vec3 \<times> vec3 \<times> vec3"
type_synonym tensorv = "vec3 list list"
type_synonym tensorm = "mat3 list list"
type_synonym raw3 = "real list list list"

section \<open>Vectors and 3x3 matrices\<close>

fun norm3 :: "vec3 \<Rightarrow> real" where
  "norm3 (x, y, z) = sqrt (x\<^sup>2 + y\<^sup>2 + z\<^sup>2)"

fun smulv :: "real \<Rightarrow> vec3 \<Rightarrow> vec3" where
  "smulv c (x, y, z) = (c * x, c * y, c * z)"

fun addv :: "vec3 \<Rightarrow> vec3 \<Rightarrow> vec3" where
  "addv (x, y, z) (x', y', z') = (x + x', y + y', z + z')"

fun subv :: "vec3 \<Rightarrow> vec3 \<Rightarrow> vec3" where
  "subv (x, y, z) (x', y', z') = (x - x', y - y', z - z')"

fun mapv :: "(real \<Rightarrow> real) \<Rightarrow> vec3 \<Rightarrow> vec3" where
  "mapv f (x, y, z) = (f x, f y, f z)"

definition eye3 :: mat3 where
  "eye3 = ((1, 0, 0), (0, 1, 0), (0, 0, 1))"

fun madd :: "mat3 \<Rightarrow> mat3 \<Rightarrow> mat3" where
  "madd (r1, r2, r3) (s1, s2, s3) = (addv r1 s1, addv r2 s2, addv r3 s3)"

fun msub :: "mat3 \<Rightarrow> mat3 \<Rightarrow> mat3" where
  "msub (r1, r2, r3) (s1, s2, s3) = (subv r1 s1, subv r2 s2, subv r3 s3)"

fun smulm :: "real \<Rightarrow> mat3 \<Rightarrow> mat3" where
  "smulm c (r1, r2, r3) = (smulv c r1, smulv c r2, smulv c r3)"

fun mtranspose :: "mat3 \<Rightarrow> mat3" where
  "mtranspose ((a11, a12, a13), (a21, a22, a23), (a31, a32, a33)) =
     ((a11, a21, a31), (a12, a22, a32), (a13, a23, a33))"

fun mmul :: "mat3 \<Rightarrow> mat3 \<Rightarrow> mat3" where
  "mmul ((a11, a12, a13), (a21, a22, a23), (a31, a32, a33))
        ((b11, b12, b13), (b21, b22, b23), (b31, b32, b33)) =
     ((a11 * b11 + a12 * b21 + a13 * b31, a11 * b12 + a12 * b22 + a13 * b32,
       a11 * b13 + a12 * b23 + a13 * b33),
      (a21 * b11 + a22 * b21 + a23 * b31, a21 * b12 + a22 * b22 + a23 * b32,
       a21 * b13 + a22 * b23 + a23 * b33),
      (a31 * b11 + a32 * b21 + a33 * b31, a31 * b12 + a32 * b22 + a33 * b32,
       a31 * b13 + a32 * b23 + a33 * b33))"

fun mtrace :: "mat3 \<Rightarrow> real" where
  "mtrace ((a11, a12, a13), (a21, a22, a23), (a31, a32, a33)) = a11 + a22 + a33"

fun mdet :: "mat3 \<Rightarrow> real" where
  "mdet ((a11, a12, a13), (a21, a22, a23), (a31, a32, a33)) =
     a11 * (a22 * a33 - a23 * a32) - a12 * (a21 * a33 - a23 * a31)
     + a13 * (a21 * a32 - a22 * a31)"

text \<open>The elements of SO(3): orthonormal with determinant one.\<close>

definition is_rotation :: "mat3 \<Rightarrow> bool" where
  "is_rotation R = (mmul (mtranspose R) R = eye3 \<and> mdet R = 1)"

definition same_shape :: "'a list list \<Rightarrow> 'b list list \<Rightarrow> bool" where
  "same_shape xs ys = (map length xs = map length ys)"

definition tmap2 :: "('a \<Rightarrow> 'b \<Rightarrow> 'c) \<Rightarrow> 'a list list \<Rightarrow> 'b list list \<Rightarrow> 'c list list" where
  "tmap2 f xs ys = map2 (map2 f) xs ys"

definition scale_batch :: "real list \<Rightarrow> tensorv \<Rightarrow> tensorv" where
  \<comment> \<open>a tensor of shape (B, 1, 1) times one of shape (B, L, 3)\<close>
  "scale_batch cs xs = map2 (\<lambda>c row. map (smulv c) row) cs xs"

section \<open>Reading a schedule at the timesteps of a batch\<close>

text \<open>
  \<open>extract_t\<close> is the function \<^verbatim>\<open>extract\<close>, that is \<^verbatim>\<open>a.gather(-1, t)\<close>: one
  entry of the schedule per batch element; \<^verbatim>\<open>gather\<close> raises on an index outside the
  schedule. The reshape to (B, 1, 1) is
  the use of the result by \<open>scale_batch\<close>.
\<close>

definition extract_t :: "real list \<Rightarrow> int list \<Rightarrow> error + real list" where
  "extract_t a t =
     (if \<forall>i \<in> set t. 0 \<le> i \<and> nat i < length a then Inr (map (\<lambda>i. a ! nat i) t)
      else Inl IndexError)"

section \<open>The exponential and the logarithm map\<close>

fun skew_symmetric :: "vec3 \<Rightarrow> mat3" where
  "skew_symmetric (x, y, z) = ((0, - z, y), (z, 0, - x), (- y, x, 0))"

definition so3_exp_map1 :: "vec3 \<Rightarrow> mat3" where
  "so3_exp_map1 v =
     (let theta = norm3 v;
          theta_clamped = clamp_min (1 / 10 ^ 8) theta;
          V = skew_symmetric v;
          sin_div = sin theta / theta_clamped;
          term2 = smulm sin_div V;
          one_minus_cos_div = (1 - cos theta) / theta_clamped\<^sup>2;
          term3 = smulm one_minus_cos_div (mmul V V)
      in madd (madd eye3 term2) term3)"

definition so3_exp_map :: "tensorv \<Rightarrow> tensorm" where
  "so3_exp_map v = map (map so3_exp_map1) v"

definition antisym_vec :: "mat3 \<Rightarrow> vec3" where
  \<comment> \<open>\<open>Q = (R - R\<^sup>T) / 2\<close> and the vector \<open>(x, y, z)\<close> read from it\<close>
  "antisym_vec R =
     (case smulm (1 / 2) (msub R (mtranspose R)) of
        ((q00, q01, q02), (q10, q11, q12), (q20, q21, q22)) \<Rightarrow>
          ((q21 - q12) / 2, (q02 - q20) / 2, (q10 - q01) / 2))"

definition so3_log_map1 :: "mat3 \<Rightarrow> vec3" where
  "so3_log_map1 R =
     (let trace_R = mtrace R;
          cos_theta = clamp (- 1 + 1 / 10 ^ 7) (1 - 1 / 10 ^ 7) ((trace_R - 1) / 2);
          theta = arccos cos_theta;
          theta_clamped = clamp_min (1 / 10 ^ 8) theta;
          v = antisym_vec R;
          sin_theta = sin theta_clamped;
          scale = theta / sin_theta
      in smulv scale v)"

definition so3_log_map :: "tensorm \<Rightarrow> tensorv" where
  "so3_log_map R = map (map so3_log_map1) R"

definition so3_interpolate :: "tensorm \<Rightarrow> 'y \<Rightarrow> real \<Rightarrow> tensorm" where
  "so3_interpolate x y gamma =
     (let v = so3_log_map x;
          new_v = map (map (smulv gamma)) v
      in so3_exp_map new_v)"

definition mean_all :: "real list \<Rightarrow> error + real" where
  \<comment> \<open>the mean over all elements; not a number on an empty tensor\<close>
  "mean_all xs = (if xs = [] then Inl NonFinite else Inr (sum_list xs / real (length xs)))"

definition rot_angle :: "mat3 \<Rightarrow> mat3 \<Rightarrow> real" where
  "rot_angle P Q =
     (let M = mmul (mtranspose P) Q;
          trace_val = mtrace M;
          cos_theta = clamp (- 1 + 1 / 10 ^ 7) (1 - 1 / 10 ^ 7) ((trace_val - 1) / 2)
      in arccos cos_theta)"

definition rotation_distance_loss :: "tensorm \<Rightarrow> tensorm \<Rightarrow> error + real" where
  "rotation_distance_loss R_pred R_true =
     (if \<not> same_shape R_pred R_true then Inl ShapeError
      else mean_all (concat (tmap2 (\<lambda>P Q. (rot_angle P Q)\<^sup>2) R_pred R_true)))"

section \<open>The random generator\<close>

fun randn_row :: "rng \<Rightarrow> 'a list \<Rightarrow> vec3 list \<times> rng" where
  "randn_row g [] = ([], g)"
| "randn_row g (x # xs) =
     (case randn_row (\<lambda>i. g (i + 3)) xs of (vs, g') \<Rightarrow> ((g 0, g 1, g 2) # vs, g'))"

fun randn_like :: "rng \<Rightarrow> 'a list list \<Rightarrow> tensorv \<times> rng" where
  "randn_like g [] = ([], g)"
| "randn_like g (r # rs) =
     (case randn_row g r of (row, g1) \<Rightarrow>
        (case randn_like g1 rs of (rows, g2) \<Rightarrow> (row # rows, g2)))"

definition randn :: "rng \<Rightarrow> nat \<Rightarrow> nat \<Rightarrow> tensorv \<times> rng" where
  "randn g B L = randn_like g (replicate B (replicate L ()))"

section \<open>The schedules of the constructor\<close>

definition linspace :: "real \<Rightarrow> real \<Rightarrow> nat \<Rightarrow> real list" where
  "linspace lo hi n =
     (if n = 1 then [lo] else map (\<lambda>i. lo + real i * ((hi - lo) / real (n - 1))) [0..<n])"

fun cumprod_from :: "real \<Rightarrow> real list \<Rightarrow> real list" where
  "cumprod_from acc [] = []"
| "cumprod_from acc (x # xs) = (acc * x) # cumprod_from (acc * x) xs"

definition cumprod :: "real list \<Rightarrow> real list" where
  "cumprod xs = cumprod_from 1 xs"

definition cosine_schedule :: "nat \<Rightarrow> real list" where
  "cosine_schedule timesteps =
     (let s = 8 / 1000;
          steps = timesteps + 1;
          x = linspace 0 (real steps) steps;
          alphas_cumprod0 = map (\<lambda>xi. (cos ((xi / real steps + s) / (1 + s) * pi * (1 / 2)))\<^sup>2) x;
          alphas_cumprod = map (\<lambda>c. c / alphas_cumprod0 ! 0) alphas_cumprod0;
          alphas = map2 (\<lambda>p q. p / q) (tl alphas_cumprod) (butlast alphas_cumprod)
      in map (clamp (1 / 1000) 1) alphas)"

datatype rot_arg = Flat raw3 | Mats "real list list list list"

record ddpm =
  model_name :: string
  score_model :: "raw3 \<Rightarrow> rot_arg \<Rightarrow> int list \<Rightarrow> raw3 \<times> raw3"
  beta_start :: real
  beta_end :: real
  trans_scale :: real
  num_timesteps :: nat
  seq_len :: nat
  a_steps :: "real list"
  a_bars :: "real list"
  x0_param1 :: "real list"
  x0_param2 :: "real list"
  sigma :: "real list"
  mean_param1 :: "real list"
  mean_param2 :: "real list"
  q_param1 :: "real list"
  q_param2 :: "real list"
  beta_t :: "real list"
  alpha_t :: "real list"
  alpha_bar_t :: "real list"

definition sched_f :: "nat \<Rightarrow> nat \<Rightarrow> real" where
  \<comment> \<open>the local function \<open>f\<close> of the constructor, for a nonzero number of timesteps\<close>
  "sched_f T t = (cos (((real t / real T + 8 / 1000) / (1 + 8 / 1000)) * (pi / 2)))\<^sup>2"

text \<open>
  The constructor \<^verbatim>\<open>DDPM_Diff.__init__\<close>. The field \<open>a_steps\<close> is \<^verbatim>\<open>self.a\<close>.
  With no timesteps, \<^verbatim>\<open>f(0)\<close> divides the integer 0 by 0 and raises. The entry
  \<^verbatim>\<open>self.a[0]\<close> written at line 159 is read by nothing before it is sliced away.
\<close>

definition init :: "string \<Rightarrow> (raw3 \<Rightarrow> rot_arg \<Rightarrow> int list \<Rightarrow> raw3 \<times> raw3) \<Rightarrow> real \<Rightarrow> real \<Rightarrow> real
    \<Rightarrow> nat \<Rightarrow> nat \<Rightarrow> error + ddpm" where
  "init nm model b_start b_end t_scale timesteps seqlen =
     (if timesteps = 0 then Inl ZeroDivisionError
      else
        let a0 = 1 # cosine_schedule timesteps;
            a_bars0 = cumprod a0;
            a1 = a0[0 := sched_f timesteps 0 / sched_f timesteps timesteps];
            ts = [1..<timesteps + 1];
            betas = linspace b_start b_end timesteps;
            alphas = map (\<lambda>b. 1 - b) betas
        in Inr \<lparr> model_name = nm, score_model = model,
                 beta_start = b_start, beta_end = b_end, trans_scale = t_scale,
                 num_timesteps = timesteps, seq_len = seqlen,
                 a_steps = tl a1,
                 a_bars = tl a_bars0,
                 x0_param1 = map (\<lambda>x. 1 / sqrt x) (tl a_bars0),
                 x0_param2 = map (\<lambda>x. sqrt (1 - x)) (tl a_bars0),
                 sigma = map (\<lambda>t. sqrt ((1 - a_bars0 ! (t - 1)) * (1 - a1 ! t) / (1 - a_bars0 ! t))) ts,
                 mean_param1 = map (\<lambda>t. sqrt (a1 ! t) * (1 - a_bars0 ! (t - 1)) / (1 - a_bars0 ! t)) ts,
                 mean_param2 = map (\<lambda>t. sqrt (a_bars0 ! (t - 1)) * (1 - a1 ! t) / (1 - a_bars0 ! t)) ts,
                 q_param1 = map sqrt (tl a_bars0),
                 q_param2 = map (\<lambda>x. sqrt (1 - x)) (tl a_bars0),
                 beta_t = betas,
                 alpha_t = alphas,
                 alpha_bar_t = cumprod alphas \<rparr>)"

section \<open>The interface to the score model\<close>

text \<open>
  The score model is a field of the object: a function on raw tensors (nested lists of
  numbers) with a name. For the model named \<^verbatim>\<open>Unet\<close> the sequence and the feature axis
  of its arguments and of its results are exchanged. Transposing \<^verbatim>\<open>x1_t\<close> and
  \<^verbatim>\<open>x2_t\<close> back after the call restores them, so the model keeps them as they are.
\<close>

fun vec_to_list :: "vec3 \<Rightarrow> real list" where
  "vec_to_list (x, y, z) = [x, y, z]"

fun mat_to_rows :: "mat3 \<Rightarrow> real list list" where
  "mat_to_rows (r1, r2, r3) = [vec_to_list r1, vec_to_list r2, vec_to_list r3]"

definition raw_of_vecs :: "tensorv \<Rightarrow> raw3" where
  "raw_of_vecs x = map (map vec_to_list) x"

definition flat_of_mats :: "tensorm \<Rightarrow> raw3" where
  \<comment> \<open>the reshape of (B, L, 3, 3) to (B, L, 9)\<close>
  "flat_of_mats x = map (map (\<lambda>m. concat (mat_to_rows m))) x"

definition rows_of_mats :: "tensorm \<Rightarrow> real list list list list" where
  "rows_of_mats x = map (map mat_to_rows) x"

definition transpose_rect :: "nat \<Rightarrow> 'a list list \<Rightarrow> 'a list list" where
  \<comment> \<open>the transpose of a matrix with \<open>n\<close> columns\<close>
  "transpose_rect n m = map (\<lambda>j. map (\<lambda>r. r ! j) m) [0..<n]"

definition ncols :: "'a list list \<Rightarrow> nat" where
  "ncols m = (case m of [] \<Rightarrow> 0 | r # _ \<Rightarrow> length r)"

definition is_rect :: "'a list list \<Rightarrow> bool" where
  "is_rect m = (\<forall>r \<in> set m. length r = ncols m)"

definition untranspose :: "raw3 \<Rightarrow> error + raw3" where
  "untranspose p =
     (if \<forall>m \<in> set p. is_rect m then Inr (map (\<lambda>m. transpose_rect (ncols m) m) p)
      else Inl ShapeError)"

fun vec_of_list :: "real list \<Rightarrow> error + vec3" where
  "vec_of_list [x, y, z] = Inr (x, y, z)"
| "vec_of_list _ = Inl ShapeError"

definition vecs_of_raw :: "raw3 \<Rightarrow> error + tensorv" where
  "vecs_of_raw p = mapE (mapE vec_of_list) p"

definition decode_scores :: "ddpm \<Rightarrow> raw3 \<times> raw3 \<Rightarrow> error + (tensorv \<times> tensorv)" where
  "decode_scores cfg out =
     (case out of (predicted_score1, predicted_score2) \<Rightarrow>
        if model_name cfg = ''Unet'' then
          bindE (untranspose predicted_score1) (\<lambda>q1.
          bindE (untranspose predicted_score2) (\<lambda>q2.
          bindE (vecs_of_raw q1) (\<lambda>p1.
          bindE (vecs_of_raw q2) (\<lambda>p2. Inr (p1, p2)))))
        else
          bindE (vecs_of_raw predicted_score1) (\<lambda>p1.
          bindE (vecs_of_raw predicted_score2) (\<lambda>p2. Inr (p1, p2))))"

section \<open>The forward process\<close>

definition forward_euclid :: "ddpm \<Rightarrow> tensorv \<Rightarrow> int list \<Rightarrow> tensorv option \<Rightarrow> rng
    \<Rightarrow> error + ((tensorv \<times> tensorv) \<times> rng)" where
  \<comment> \<open>lines 204 to 206\<close>
  "forward_euclid cfg x1 t trans_init g =
     (case (case trans_init of None \<Rightarrow> randn_like g x1 | Some e \<Rightarrow> (e, g)) of
        (epsilon1, g1) \<Rightarrow>
          bindE (extract_t (q_param1 cfg) t) (\<lambda>q1.
          bindE (extract_t (q_param2 cfg) t) (\<lambda>q2.
            if length t \<noteq> length x1 \<or> \<not> same_shape epsilon1 x1 then Inl ShapeError
            else Inr ((tmap2 addv (scale_batch q1 x1) (scale_batch q2 epsilon1), epsilon1), g1))))"

definition forward_rot :: "ddpm \<Rightarrow> tensorm \<Rightarrow> int list \<Rightarrow> rng
    \<Rightarrow> error + ((tensorm \<times> tensorv) \<times> rng)" where
  \<comment> \<open>lines 209 to 216\<close>
  "forward_rot cfg R0 t g =
     (let v0 = so3_log_map R0 in
      bindE (extract_t (alpha_bar_t cfg) t) (\<lambda>ab.
      bindE (mapE fsqrt ab) (\<lambda>alpha_bar_t_sqrt.
        case randn_like g v0 of (epsilon2, g2) \<Rightarrow>
          bindE (mapE (\<lambda>x. fsqrt (1 - x)) ab) (\<lambda>s1.
            if length t \<noteq> length R0 then Inl ShapeError
            else
              let vt = tmap2 addv (scale_batch alpha_bar_t_sqrt v0) (scale_batch s1 epsilon2)
              in Inr ((so3_exp_map vt, epsilon2), g2)))))"

definition forward_process :: "ddpm \<Rightarrow> tensorv \<Rightarrow> tensorm \<Rightarrow> int list \<Rightarrow> tensorv option
    \<Rightarrow> 'r option \<Rightarrow> rng
    \<Rightarrow> error + (((tensorv \<times> tensorv) \<times> (tensorm \<times> tensorv)) \<times> rng)" where
  "forward_process cfg x1 R0 t trans_init rot_init g =
     bindE (forward_euclid cfg x1 t trans_init g) (\<lambda>(eu, g1).
     bindE (forward_rot cfg R0 t g1) (\<lambda>(ro, g2). Inr ((eu, ro), g2)))"

section \<open>The loss\<close>

fun abs_diffs :: "vec3 \<Rightarrow> vec3 \<Rightarrow> real list" where
  "abs_diffs (x, y, z) (x', y', z') = [\<bar>x - x'\<bar>, \<bar>y - y'\<bar>, \<bar>z - z'\<bar>]"

definition l1_loss :: "tensorv \<Rightarrow> tensorv \<Rightarrow> error + real" where
  \<comment> \<open>the mean absolute error over all B * L * 3 entries\<close>
  "l1_loss p q =
     (if \<not> same_shape p q then Inl ShapeError
      else mean_all (concat (concat (tmap2 abs_diffs p q))))"

definition x0_from_noise :: "ddpm \<Rightarrow> int list \<Rightarrow> tensorv \<Rightarrow> tensorv \<Rightarrow> error + tensorv" where
  \<comment> \<open>the expression of lines 240 and 305\<close>
  "x0_from_noise cfg t x1_t predicted_score1 =
     bindE (extract_t (x0_param1 cfg) t) (\<lambda>c1.
     bindE (extract_t (x0_param2 cfg) t) (\<lambda>c2.
       if length t \<noteq> length x1_t \<or> \<not> same_shape predicted_score1 x1_t then Inl ShapeError
       else Inr (scale_batch c1 (tmap2 subv x1_t (scale_batch c2 predicted_score1)))))"

definition compute_loss :: "ddpm \<Rightarrow> tensorv \<Rightarrow> tensorm \<Rightarrow> int list \<Rightarrow> rng
    \<Rightarrow> error + ((real \<times> real \<times> real \<times> real \<times> real) \<times> rng)" where
  "compute_loss cfg x1 x2 t g =
     bindE (forward_process cfg (map (map (smulv (trans_scale cfg))) x1) x2 t None
              (None :: unit option) g)
       (\<lambda>(((x1_t, epsilon1), (x2_t, epsilon2)), g').
          if \<not> same_shape x2_t x1 then Inl ShapeError
          else
            let unet = (model_name cfg = ''Unet'');
                x1_in = (if unet then map (transpose_rect 3) (raw_of_vecs x1_t)
                         else raw_of_vecs x1_t);
                x2_in = (if unet then map (transpose_rect 9) (flat_of_mats x2_t)
                         else flat_of_mats x2_t)
            in bindE (decode_scores cfg (score_model cfg x1_in (Flat x2_in) t))
                 (\<lambda>(predicted_score1, predicted_score2).
                    bindE (x0_from_noise cfg t x1_t predicted_score1) (\<lambda>x0_1.
                    bindE (l1_loss predicted_score1 epsilon1) (\<lambda>loss1.
                    bindE (l1_loss x0_1 x1) (\<lambda>loss_origin1.
                    bindE (rotation_distance_loss (so3_exp_map predicted_score2)
                             (so3_exp_map epsilon2)) (\<lambda>loss2.
                      let loss_origin2 = 0
                      in Inr ((loss1 + loss_origin1 + loss2 + loss_origin2,
                               loss1, loss2, loss_origin1, loss_origin2), g')))))))"

section \<open>The reverse sampler\<close>

definition list_get :: "'a list \<Rightarrow> nat \<Rightarrow> error + 'a" where
  "list_get xs i = (if i < length xs then Inr (xs ! i) else Inl IndexError)"

definition tdiv :: "tensorv \<Rightarrow> real \<Rightarrow> error + tensorv" where
  \<comment> \<open>a tensor divided by a scalar\<close>
  "tdiv x s =
     (if s = 0 \<and> concat x \<noteq> [] then Inl NonFinite
      else Inr (map (map (mapv (\<lambda>c. c / s))) x))"

definition sample_x0 :: "ddpm \<Rightarrow> int list \<Rightarrow> tensorv \<Rightarrow> tensorv \<Rightarrow> error + tensorv" where
  \<comment> \<open>lines 305 and 306: the estimate of the clean translation\<close>
  "sample_x0 cfg t_tensor x1_t predicted_score1 =
     bindE (x0_from_noise cfg t_tensor x1_t predicted_score1) (\<lambda>x0.
       Inr (map (map (mapv (clamp (- 1) 1))) x0))"

definition sample_trans_step :: "ddpm \<Rightarrow> int list \<Rightarrow> tensorv \<Rightarrow> tensorv \<Rightarrow> tensorv
    \<Rightarrow> error + tensorv" where
  \<comment> \<open>lines 305 to 311\<close>
  "sample_trans_step cfg t_tensor x1_t predicted_score1 noise =
     bindE (sample_x0 cfg t_tensor x1_t predicted_score1) (\<lambda>x0.
       bindE (extract_t (mean_param1 cfg) t_tensor) (\<lambda>m1.
       bindE (extract_t (mean_param2 cfg) t_tensor) (\<lambda>m2.
       bindE (extract_t (sigma cfg) t_tensor) (\<lambda>sg.
         if \<not> same_shape noise x1_t then Inl ShapeError
         else
           let mean = tmap2 addv (scale_batch m1 x1_t) (scale_batch m2 x0)
           in Inr (tmap2 addv mean (scale_batch sg noise))))))"

definition v0_reconstruct :: "ddpm \<Rightarrow> nat \<Rightarrow> tensorv \<Rightarrow> tensorv \<Rightarrow> error + tensorv" where
  \<comment> \<open>lines 320 and 321\<close>
  "v0_reconstruct cfg t v_t predicted_score2 =
     bindE (list_get (alpha_bar_t cfg) t) (\<lambda>ab.
     bindE (fsqrt ab) (\<lambda>alpha_bar_t_sqrt.
     bindE (fsqrt (1 - ab)) (\<lambda>s1.
       if \<not> same_shape predicted_score2 v_t then Inl ShapeError
       else tdiv (tmap2 subv v_t (map (map (smulv s1)) predicted_score2)) alpha_bar_t_sqrt)))"

definition lambda_map :: "real \<Rightarrow> tensorm \<Rightarrow> tensorm" where
  "lambda_map gamma X = (let vX = so3_log_map X in so3_exp_map (map (map (smulv gamma)) vX))"

definition sample_rot_step :: "ddpm \<Rightarrow> nat \<Rightarrow> tensorm \<Rightarrow> tensorv \<Rightarrow> tensorv list option \<Rightarrow> rng
    \<Rightarrow> error + (tensorm \<times> rng)" where
  \<comment> \<open>lines 316 to 357\<close>
  "sample_rot_step cfg t x2_t predicted_score2 rot_noise g =
     (let v_t = so3_log_map x2_t in
      bindE (v0_reconstruct cfg t v_t predicted_score2) (\<lambda>v_0_pred.
        let x_0_approx = so3_exp_map v_0_pred in
        if t > 0 then
          bindE (list_get (alpha_t cfg) t) (\<lambda>alpha_t_cur.
          bindE (list_get (beta_t cfg) t) (\<lambda>beta_t_cur.
            let alpha_bar_t_minus = alpha_bar_t cfg ! (t - 1);
                ab = alpha_bar_t cfg ! t
            in
            bindE (fsqrt alpha_bar_t_minus) (\<lambda>r1.
            bindE (fdiv (r1 * beta_t_cur) (1 - ab)) (\<lambda>c1.
            bindE (fsqrt (alpha_t_cur * (1 - alpha_bar_t_minus))) (\<lambda>r2.
            bindE (fdiv r2 (1 - ab)) (\<lambda>c2.
              let part1 = lambda_map c1 x_0_approx;
                  part2 = lambda_map c2 x2_t;
                  mu_t = tmap2 mmul part1 part2
              in
              case (case rot_noise of
                      Some rn \<Rightarrow> (list_get rn t, g)
                    | None \<Rightarrow> (case randn_like g v_t of (e, g') \<Rightarrow> (Inr e, g'))) of
                (eps, g') \<Rightarrow>
                  bindE eps (\<lambda>epsilon.
                    let v_mu = so3_log_map mu_t in
                    bindE (fsqrt beta_t_cur) (\<lambda>sb.
                      if \<not> same_shape epsilon v_mu then Inl ShapeError
                      else
                        let v_t_minus = tmap2 addv v_mu (map (map (smulv sb)) epsilon)
                        in Inr (so3_exp_map v_t_minus, g')))))))))
        else Inr (x_0_approx, g)))"

definition sample_step :: "ddpm \<Rightarrow> nat \<Rightarrow> nat \<Rightarrow> tensorv list option \<Rightarrow> tensorv list option
    \<Rightarrow> nat \<Rightarrow> (tensorv \<times> tensorm) \<times> rng \<Rightarrow> error + ((tensorv \<times> tensorm) \<times> rng)" where
  \<comment> \<open>one pass of the loop of lines 278 to 357\<close>
  "sample_step cfg B L trans_noise rot_noise t st =
     (case st of ((x1_t, x2_t), g) \<Rightarrow>
        let t_tensor = replicate B (int t);
            unet = (model_name cfg = ''Unet'')
        in
        if unet \<and> map length x2_t \<noteq> replicate B L then Inl ShapeError
        else
          let x1_in = (if unet then map (transpose_rect 3) (raw_of_vecs x1_t)
                       else raw_of_vecs x1_t);
              x2_in = (if unet then Flat (map (transpose_rect 9) (flat_of_mats x2_t))
                       else Mats (rows_of_mats x2_t))
          in
          bindE (decode_scores cfg (score_model cfg x1_in x2_in t_tensor))
            (\<lambda>(predicted_score1, predicted_score2).
               case (if t > 0 then
                       (case trans_noise of
                          Some tn \<Rightarrow> (list_get tn t, g)
                        | None \<Rightarrow> (case randn_like g x1_t of (n, g1) \<Rightarrow> (Inr n, g1)))
                     else (Inr (map (map (\<lambda>_. (0, 0, 0))) x1_t), g)) of
                 (nz, g1) \<Rightarrow>
                   bindE nz (\<lambda>noise.
                   bindE (sample_trans_step cfg t_tensor x1_t predicted_score1 noise) (\<lambda>x1_new.
                   bindE (sample_rot_step cfg t x2_t predicted_score2 rot_noise g1)
                     (\<lambda>(x2_new, g2). Inr ((x1_new, x2_new), g2))))))"

fun sample_loop :: "ddpm \<Rightarrow> nat \<Rightarrow> nat \<Rightarrow> tensorv list option \<Rightarrow> tensorv list option
    \<Rightarrow> nat \<Rightarrow> (tensorv \<times> tensorm) \<times> rng \<Rightarrow> error + ((tensorv \<times> tensorm) \<times> rng)" where
  "sample_loop cfg B L trans_noise rot_noise 0 st = Inr st"
| "sample_loop cfg B L trans_noise rot_noise (Suc t) st =
     bindE (sample_step cfg B L trans_noise rot_noise t st)
       (sample_loop cfg B L trans_noise rot_noise t)"

text \<open>
  \<^verbatim>\<open>sample\<close>. The loop runs over \<open>t = num_steps - 1, ..., 0\<close>. The function
  \<^verbatim>\<open>compose_se3\<close> comes from a module outside this file and is a parameter.
\<close>

definition sample :: "ddpm \<Rightarrow> (tensorm \<Rightarrow> tensorv \<Rightarrow> 'p) \<Rightarrow> nat \<times> nat \<Rightarrow> int \<Rightarrow> tensorv option
    \<Rightarrow> tensorm option \<Rightarrow> tensorv list option \<Rightarrow> tensorv list option \<Rightarrow> rng
    \<Rightarrow> error + ('p \<times> rng)" where
  "sample cfg compose_se3 shape num_steps trans_init rot_init trans_noise rot_noise g =
     (case shape of (B, L) \<Rightarrow>
        case (case trans_init of None \<Rightarrow> randn g B L | Some x \<Rightarrow> (x, g)) of
          (x1_T, g1) \<Rightarrow>
            case (case rot_init of
                    Some r \<Rightarrow> (r, g1)
                  | None \<Rightarrow> (case randn g1 B L of (v_T, g2) \<Rightarrow> (so3_exp_map v_T, g2))) of
              (x2_T, g2) \<Rightarrow>
                bindE (sample_loop cfg B L trans_noise rot_noise (nat num_steps) ((x1_T, x2_T), g2))
                  (\<lambda>((x1_0, x2_0), g3).
                     let x1_c = map (map (mapv (clamp (- 1) 1))) x1_0 in
                     bindE (tdiv x1_c (trans_scale cfg)) (\<lambda>tr. Inr (compose_se3 x2_0 tr, g3))))"

section \<open>Configurations used below\<close>

text \<open>A score model that returns zero noise of the shape of its first argument.\<close>

definition zero_model :: "raw3 \<Rightarrow> rot_arg \<Rightarrow> int list \<Rightarrow> raw3 \<times> raw3" where
  "zero_model x1 x2 t = (map (map (map (\<lambda>_. 0))) x1, map (map (map (\<lambda>_. 0))) x1)"

text \<open>The object built with the default arguments of the constructor.\<close>

definition default_ddpm :: "string \<Rightarrow> (raw3 \<Rightarrow> rot_arg \<Rightarrow> int list \<Rightarrow> raw3 \<times> raw3) \<Rightarrow> error + ddpm" where
  "default_ddpm nm model = init nm model (1 / 10) 1 1 30 128"

text \<open>An object with a single timestep and both betas one half.\<close>

definition small_ddpm :: "string \<Rightarrow> (raw3 \<Rightarrow> rot_arg \<Rightarrow> int list \<Rightarrow> raw3 \<times> raw3) \<Rightarrow> error + ddpm" where
  "small_ddpm nm model = init nm model (1 / 2) (1 / 2) 1 1 1"

definition small_cfg :: ddpm where
  "small_cfg = projr (small_ddpm ''mlp'' zero_model)"

definition default_cfg :: ddpm where
  "default_cfg = projr (default_ddpm ''mlp'' zero_model)"

text \<open>An object with two timesteps and both betas one half.\<close>

definition two_step_ddpm :: "string \<Rightarrow> (raw3 \<Rightarrow> rot_arg \<Rightarrow> int list \<Rightarrow> raw3 \<times> raw3) \<Rightarrow> error + ddpm" where
  "two_step_ddpm nm model = init nm model (1 / 2) (1 / 2) 1 2 1"

definition two_step_cfg :: ddpm where
  "two_step_cfg = projr (two_step_ddpm ''mlp'' zero_model)"



section \<open>Notions used in the proofs\<close>

text \<open>
  The matrix \<open>I + a V + b V\<^sup>2\<close> for the skew-symmetric matrix \<open>V\<close> of a vector: the
  exponential map is this matrix for two coefficients computed from the norm of the vector.
\<close>

definition rodrigues :: "real \<Rightarrow> real \<Rightarrow> vec3 \<Rightarrow> mat3" where
  "rodrigues a b v =
     madd (madd eye3 (smulm a (skew_symmetric v)))
          (smulm b (mmul (skew_symmetric v) (skew_symmetric v)))"

definition sqnorm3 :: "vec3 \<Rightarrow> real" where
  "sqnorm3 v = (case v of (x, y, z) \<Rightarrow> x\<^sup>2 + y\<^sup>2 + z\<^sup>2)"

text \<open>
  A matrix is a rotation up to a tolerance when every entry of \<open>R\<^sup>T R - I\<close> and the
  difference of the determinant to one are at most the tolerance in absolute value.
\<close>

definition near_rotation :: "real \<Rightarrow> mat3 \<Rightarrow> bool" where
  "near_rotation tol R =
     (list_all (\<lambda>e. \<bar>e\<bar> \<le> tol) (concat (mat_to_rows (msub (mmul (mtranspose R) R) eye3)))
      \<and> \<bar>mdet R - 1\<bar> \<le> tol)"

text \<open>The adjugate of a matrix, the transpose of its matrix of cofactors.\<close>

definition madj :: "mat3 \<Rightarrow> mat3" where
  "madj M = (case M of ((a, b, c), (d, e, f), (g, h, i)) \<Rightarrow>
     ((e * i - f * h, c * h - b * i, b * f - c * e),
      (f * g - d * i, a * i - c * g, c * d - a * f),
      (d * h - e * g, b * g - a * h, a * e - b * d)))"

text \<open>
  Two matrices are close up to a tolerance when every entry of their difference is at most
  the tolerance in absolute value.
\<close>

definition mat_close :: "real \<Rightarrow> mat3 \<Rightarrow> mat3 \<Rightarrow> bool" where
  "mat_close tol A B = list_all (\<lambda>e. \<bar>e\<bar> \<le> tol) (concat (mat_to_rows (msub A B)))"

section \<open>Basic facts\<close>

lemma bindE_Inr [simp]: "bindE (Inr x) f = f x"
  by (simp add: bindE_def)

lemma bindE_Inl [simp]: "bindE (Inl e) f = Inl e"
  by (simp add: bindE_def)

lemma bindE_eq_Inr: "bindE m f = Inr y \<longleftrightarrow> (\<exists>x. m = Inr x \<and> f x = Inr y)"
  by (cases m) simp_all

lemma length_linspace [simp]: "length (linspace lo hi n) = n"
  by (simp add: linspace_def)

lemma length_cumprod_from [simp]: "length (cumprod_from acc xs) = length xs"
  by (induction xs arbitrary: acc) simp_all

lemma length_cumprod [simp]: "length (cumprod xs) = length xs"
  by (simp add: cumprod_def)

lemma length_cosine_schedule [simp]: "length (cosine_schedule T) = T"
  by (simp add: cosine_schedule_def Let_def)

lemma cosine_schedule_Suc0: "cosine_schedule (Suc 0) = [1 / 1000]"
  by (simp add: cosine_schedule_def linspace_def clamp_def Let_def)

lemma small_ddpm_eq:
  "small_ddpm nm model = Inr \<lparr> model_name = nm, score_model = model,
     beta_start = 1 / 2, beta_end = 1 / 2, trans_scale = 1, num_timesteps = 1, seq_len = 1,
     a_steps = [1 / 1000], a_bars = [1 / 1000],
     x0_param1 = [1 / sqrt (1 / 1000)], x0_param2 = [sqrt (999 / 1000)],
     sigma = [0], mean_param1 = [0], mean_param2 = [1],
     q_param1 = [sqrt (1 / 1000)], q_param2 = [sqrt (999 / 1000)],
     beta_t = [1 / 2], alpha_t = [1 / 2], alpha_bar_t = [1 / 2] \<rparr>"
  by (simp add: small_ddpm_def init_def cosine_schedule_Suc0 cumprod_def linspace_def Let_def)

lemma small_cfg_eq: "small_ddpm ''mlp'' zero_model = Inr small_cfg"
  by (simp add: small_cfg_def small_ddpm_eq)

lemma init_fields:
  assumes "init nm model bs be sc T sl = Inr cfg"
  shows "length (a_bars cfg) = T" and "q_param1 cfg = map sqrt (a_bars cfg)"
    and "q_param2 cfg = map (\<lambda>x. sqrt (1 - x)) (a_bars cfg)"
    and "x0_param1 cfg = map (\<lambda>x. 1 / sqrt x) (a_bars cfg)"
    and "x0_param2 cfg = map (\<lambda>x. sqrt (1 - x)) (a_bars cfg)"
    and "length (alpha_bar_t cfg) = T" and "T \<noteq> 0"
    and "model_name cfg = nm" and "score_model cfg = model"
  using assms by (auto simp: init_def Let_def split: if_splits)

lemma so3_exp_map1_zero: "so3_exp_map1 (0, 0, 0) = eye3"
  by (simp add: so3_exp_map1_def eye3_def clamp_min_def)

lemma smulv_zero: "smulv 0 v = (0, 0, 0)"
  by (cases v) simp

lemma delta_arccos_pos: "0 < arccos (1 - 1 / 10 ^ 7)"
proof -
  have "arccos (1 - 1 / 10 ^ 7) \<noteq> 0"
    using arccos_eq_0_iff [of "1 - 1 / 10 ^ 7"] by simp
  moreover have "0 \<le> arccos (1 - 1 / 10 ^ 7)"
    by (rule arccos_lbound) simp_all
  ultimately show ?thesis by simp
qed

lemma tmap2_self: "tmap2 f xs xs = map (map (\<lambda>x. f x x)) xs"
  by (simp add: tmap2_def map2_map_map zip_same_conv_map comp_def)

lemma cos_ge_quadratic: "1 - x\<^sup>2 / 2 \<le> cos (x :: real)"
proof -
  have "cos x = 1 - 2 * (sin (x / 2))\<^sup>2"
    using cos_double_sin [of "x / 2"] by simp
  moreover have "(sin (x / 2))\<^sup>2 \<le> (x / 2)\<^sup>2"
    using abs_sin_x_le_abs_x [of "x / 2"] by (metis abs_le_square_iff)
  ultimately show ?thesis by (simp add: power2_eq_square)
qed

lemma x_cos_le_sin:
  assumes "0 \<le> x" and "x \<le> pi"
  shows "x * cos x \<le> sin (x :: real)"
proof -
  let ?f = "\<lambda>u :: real. sin u - u * cos u"
  have "?f 0 \<le> ?f x"
  proof (rule DERIV_nonneg_imp_nondecreasing [OF assms(1)])
    fix u :: real
    assume u: "0 \<le> u" "u \<le> x"
    have "(?f has_real_derivative (u * sin u)) (at u)"
      by (auto intro!: derivative_eq_intros)
    moreover have "0 \<le> u * sin u"
      using u assms(2) sin_ge_zero [of u] by simp
    ultimately show "\<exists>y. (?f has_real_derivative y) (at u) \<and> 0 \<le> y" by blast
  qed
  then show ?thesis by simp
qed

section \<open>The identity rotation\<close>

text \<open>
  Claim C6. The exponential map sends the zero vector to the identity matrix exactly, for
  a batch of any shape, and the geodesic scaling \<open>so3_interpolate\<close> with factor 0 returns
  the identity matrix at every position of the batch, whatever the rotations are.
\<close>

theorem exp_zero_identity:
  "so3_exp_map (replicate B (replicate L (0, 0, 0))) = replicate B (replicate L eye3)
   \<and> so3_interpolate x y 0 = map (map (\<lambda>_. eye3)) x"
  by (simp add: so3_exp_map_def so3_exp_map1_zero so3_interpolate_def so3_log_map_def
      comp_def smulv_zero)

section \<open>The distance of a rotation to itself\<close>

text \<open>
  Claim C4, as stated, says that the rotation distance loss of a rotation to itself is 0.
  The cosine is clamped to \<open>1 - 10\<^sup>-\<^sup>7\<close> before the arc cosine, so the loss of the
  identity to itself is not 0.
\<close>

theorem rotation_distance_self_not_zero:
  "is_rotation eye3 \<and> rotation_distance_loss [[eye3]] [[eye3]] \<noteq> Inr 0"
  using delta_arccos_pos
  by (simp add: rotation_distance_loss_def same_shape_def tmap2_def mean_all_def
      rot_angle_def eye3_def clamp_def is_rotation_def)

lemma arccos_sq_lower:
  assumes "0 \<le> x" and "x \<le> 2"
  shows "2 * x \<le> (arccos (1 - x))\<^sup>2"
proof -
  have "cos (arccos (1 - x)) = 1 - x"
    by (rule cos_arccos) (use assms in simp_all)
  moreover have "1 - (arccos (1 - x))\<^sup>2 / 2 \<le> cos (arccos (1 - x))"
    by (rule cos_ge_quadratic)
  ultimately show ?thesis by simp
qed

lemma arccos_sq_upper:
  assumes "0 \<le> x" and "x < 1"
  shows "(arccos (1 - x))\<^sup>2 * (1 - x)\<^sup>2 \<le> 2 * x - x\<^sup>2"
proof -
  let ?u = "arccos (1 - x)"
  have c: "cos ?u = 1 - x" by (rule cos_arccos) (use assms in simp_all)
  have u0: "0 \<le> ?u" by (rule arccos_lbound) (use assms in simp_all)
  have "?u \<le> arccos 0"
    by (rule arccos_le_arccos) (use assms in simp_all)
  hence u1: "?u \<le> pi / 2" by simp
  have "?u * cos ?u \<le> sin ?u" using x_cos_le_sin [of ?u] u0 u1 by simp
  moreover have "0 \<le> ?u * cos ?u" using u0 c assms by simp
  ultimately have "(?u * cos ?u)\<^sup>2 \<le> (sin ?u)\<^sup>2"
    by (intro power_mono) simp_all
  also have "(sin ?u)\<^sup>2 = 1 - (1 - x)\<^sup>2" by (simp add: sin_squared_eq c)
  finally show ?thesis by (simp add: c power_mult_distrib power2_eq_square algebra_simps)
qed

lemma mean_all_lower:
  assumes "xs \<noteq> []" and "\<forall>x \<in> set xs. lo \<le> x"
  shows "\<exists>d. mean_all xs = Inr d \<and> lo \<le> d"
proof -
  have "real (length xs) * lo \<le> sum_list xs"
    using assms(2) by (induction xs) (auto simp: algebra_simps)
  moreover have "0 < real (length xs)" using assms(1) by simp
  ultimately have "lo \<le> sum_list xs / real (length xs)"
    by (simp add: pos_le_divide_eq mult.commute)
  thus ?thesis using assms(1) by (simp add: mean_all_def)
qed

lemma mean_all_upper:
  assumes "xs \<noteq> []" and "\<forall>x \<in> set xs. x \<le> hi" and "mean_all xs = Inr d"
  shows "d \<le> hi"
proof -
  have "sum_list xs \<le> real (length xs) * hi"
    using assms(2) by (induction xs) (auto simp: algebra_simps)
  moreover have "0 < real (length xs)" using assms(1) by simp
  ultimately have "sum_list xs / real (length xs) \<le> hi"
    by (simp add: pos_divide_le_eq mult.commute)
  thus ?thesis using assms(1,3) by (simp add: mean_all_def)
qed

lemma rot_angle_lower: "2 / 10 ^ 7 \<le> (rot_angle P Q)\<^sup>2"
proof -
  define y where "y = clamp (- 1 + 1 / 10 ^ 7) (1 - 1 / 10 ^ 7) ((mtrace (mmul (mtranspose P) Q) - 1) / 2)"
  have y: "- 1 + 1 / 10 ^ 7 \<le> y" "y \<le> 1 - 1 / 10 ^ 7" by (simp_all add: y_def clamp_def)
  have "2 * (1 - y) \<le> (arccos (1 - (1 - y)))\<^sup>2"
    by (rule arccos_sq_lower) (use y in simp_all)
  moreover have "rot_angle P Q = arccos y" by (simp add: rot_angle_def y_def Let_def)
  ultimately show ?thesis using y by simp
qed

lemma rot_angle_upper:
  assumes "\<bar>mtrace (mmul (mtranspose P) Q) - 3\<bar> \<le> 8 / 10 ^ 5"
  shows "(rot_angle P Q)\<^sup>2 \<le> 1 / 10 ^ 4"
proof -
  define y where "y = clamp (- 1 + 1 / 10 ^ 7) (1 - 1 / 10 ^ 7) ((mtrace (mmul (mtranspose P) Q) - 1) / 2)"
  define x where "x = 1 - y"
  define c where "c = (mtrace (mmul (mtranspose P) Q) - 1) / 2"
  define t where "t = mtrace (mmul (mtranspose P) Q)"
  have "\<bar>t - 3\<bar> \<le> 8 / 100000" using assms by (simp add: t_def)
  hence "1 - 4 / 100000 \<le> (t - 1) / 2" by (auto simp: abs_if split: if_splits)
  hence "1 - 4 / 10 ^ 5 \<le> c" by (simp add: c_def t_def)
  hence x: "1 / 10 ^ 7 \<le> x" "x \<le> 4 / 10 ^ 5"
    by (simp_all add: x_def y_def clamp_def c_def [symmetric] min_def max_def)
  define u where "u = (arccos (1 - x))\<^sup>2"
  have "u * (1 - x)\<^sup>2 \<le> 2 * x - x\<^sup>2"
    unfolding u_def by (rule arccos_sq_upper) (use x in simp_all)
  also have "\<dots> \<le> 2 * x" by simp
  also have "\<dots> \<le> 8 / 10 ^ 5" using x by simp
  finally have 1: "u * (1 - x)\<^sup>2 \<le> 8 / 10 ^ 5" .
  have "0 \<le> u" by (simp add: u_def)
  have "(1 - 4 / 10 ^ 5)\<^sup>2 \<le> (1 - x)\<^sup>2" by (rule power_mono) (use x in simp_all)
  hence "u * (1 - 4 / 10 ^ 5)\<^sup>2 \<le> u * (1 - x)\<^sup>2"
    using \<open>0 \<le> u\<close> by (rule mult_left_mono)
  with 1 have "u * (1 - 4 / 10 ^ 5)\<^sup>2 \<le> 8 / 10 ^ 5" by linarith
  hence "u \<le> 1 / 10 ^ 4" by (simp add: power2_eq_square)
  moreover have "rot_angle P Q = arccos (1 - x)" by (simp add: rot_angle_def y_def x_def Let_def)
  ultimately show ?thesis by (simp add: u_def)
qed

lemma is_rotation_trace:
  "is_rotation m \<Longrightarrow> \<bar>mtrace (mmul (mtranspose m) m) - 3\<bar> \<le> 8 / 10 ^ 5"
  by (simp add: is_rotation_def eye3_def)

text \<open>
  Claim C4, amended. For every nonempty batch \<open>R\<close> the rotation distance loss of \<open>R\<close> to
  itself is defined and at least \<open>2 * 10\<^sup>-\<^sup>7\<close>, so it is never 0; when every matrix \<open>m\<close> of
  the batch is orthonormal up to \<open>8 * 10\<^sup>-\<^sup>5\<close> in the trace of \<open>m\<^sup>T m\<close>, as every valid
  rotation is (\<open>is_rotation_trace\<close>), the loss is at most \<open>10\<^sup>-\<^sup>4\<close>. The bounds do not
  depend on the exact value of the trace or of the arc cosine.
\<close>

theorem rotation_distance_self:
  assumes "concat R \<noteq> []"
  shows "\<exists>d. rotation_distance_loss R R = Inr d \<and> 2 / 10 ^ 7 \<le> d
           \<and> ((\<forall>row \<in> set R. \<forall>m \<in> set row. \<bar>mtrace (mmul (mtranspose m) m) - 3\<bar> \<le> 8 / 10 ^ 5)
                \<longrightarrow> d \<le> 1 / 10 ^ 4)"
proof -
  let ?xs = "concat (map (map (\<lambda>m. (rot_angle m m)\<^sup>2)) R)"
  have ne: "?xs \<noteq> []" using assms by (induction R) auto
  have eq: "rotation_distance_loss R R = mean_all ?xs"
    by (simp add: rotation_distance_loss_def same_shape_def tmap2_self)
  have "\<forall>x \<in> set ?xs. 2 / 10 ^ 7 \<le> x"
    using rot_angle_lower by auto
  from mean_all_lower [OF ne this] obtain d
    where d: "mean_all ?xs = Inr d" "2 / 10 ^ 7 \<le> d" by blast
  have "d \<le> 1 / 10 ^ 4"
    if "\<forall>row \<in> set R. \<forall>m \<in> set row. \<bar>mtrace (mmul (mtranspose m) m) - 3\<bar> \<le> 8 / 10 ^ 5"
  proof -
    have "\<forall>x \<in> set ?xs. x \<le> 1 / 10 ^ 4"
      using that rot_angle_upper by auto
    from mean_all_upper [OF ne this d(1)] show ?thesis .
  qed
  with d eq show ?thesis by auto
qed

theorem rotation_distance_self_witness:
  "concat [[eye3, ((1 - 1 / 10 ^ 6, 0, 0), (0, 1, 0), (0, 0, 1))]] \<noteq> []
   \<and> \<bar>mtrace (mmul (mtranspose eye3) eye3) - 3\<bar> \<le> 8 / 10 ^ 5
   \<and> \<bar>mtrace (mmul (mtranspose ((1 - 1 / 10 ^ 6, 0, 0), (0, 1, 0), (0, 0, 1)))
         ((1 - 1 / 10 ^ 6, 0, 0), (0, 1, 0), (0, 0, 1))) - 3\<bar> \<le> 8 / 10 ^ 5
   \<and> (\<exists>d. rotation_distance_loss [[eye3, ((1 - 1 / 10 ^ 6, 0, 0), (0, 1, 0), (0, 0, 1))]]
             [[eye3, ((1 - 1 / 10 ^ 6, 0, 0), (0, 1, 0), (0, 0, 1))]] = Inr d
          \<and> 2 / 10 ^ 7 \<le> d \<and> d \<le> 1 / 10 ^ 4)"
  using rotation_distance_self [of "[[eye3, ((1 - 1 / 10 ^ 6, 0, 0), (0, 1, 0), (0, 0, 1))]]"]
  by (simp add: eye3_def)

section \<open>Shapes, indexing and the generator\<close>

lemma extract_t_in_range:
  assumes "\<forall>i \<in> set t. 0 \<le> i \<and> nat i < length a"
  shows "extract_t a t = Inr (map (\<lambda>i. a ! nat i) t)"
  using assms by (simp add: extract_t_def)

lemma extract_t_Inr:
  "extract_t a t = Inr cs \<Longrightarrow> cs = map (\<lambda>i. a ! nat i) t \<and> (\<forall>i \<in> set t. 0 \<le> i \<and> nat i < length a)"
  by (auto simp: extract_t_def split: if_splits)

lemma randn_row_length: "length (fst (randn_row g xs)) = length xs"
proof (induction xs arbitrary: g)
  case Nil
  show ?case by simp
next
  case (Cons x xs)
  obtain vs g' where r: "randn_row (\<lambda>i. g (i + 3)) xs = (vs, g')"
    by (cases "randn_row (\<lambda>i. g (i + 3)) xs")
  then show ?case using Cons.IH [of "\<lambda>i. g (i + 3)"] by simp
qed

lemma randn_like_shape: "same_shape (fst (randn_like g x)) x"
proof (induction x arbitrary: g)
  case Nil
  show ?case by (simp add: same_shape_def)
next
  case (Cons r rs)
  obtain row g1 where r: "randn_row g r = (row, g1)" by (cases "randn_row g r")
  obtain rows g2 where rs: "randn_like g1 rs = (rows, g2)" by (cases "randn_like g1 rs")
  have "length row = length r" using randn_row_length [of g r] r by simp
  moreover have "map length rows = map length rs"
    using Cons.IH [of g1] rs by (simp add: same_shape_def)
  ultimately show ?case using r rs by (simp add: same_shape_def)
qed

lemma same_shape_nth:
  assumes "same_shape xs ys"
  shows "length xs = length ys" and "b < length ys \<Longrightarrow> length (xs ! b) = length (ys ! b)"
proof -
  show l: "length xs = length ys"
    using assms unfolding same_shape_def by (metis length_map)
  assume "b < length ys"
  then show "length (xs ! b) = length (ys ! b)"
    using assms l unfolding same_shape_def by (metis nth_map)
qed


lemma tmap2_shape:
  assumes "same_shape xs ys"
  shows "same_shape (tmap2 f xs ys) ys"
proof -
  have l: "length xs = length ys" using assms by (rule same_shape_nth)
  have "map length (map2 (map2 f) xs ys) = map length ys"
  proof (rule nth_equalityI)
    show "length (map length (map2 (map2 f) xs ys)) = length (map length ys)" using l by simp
  next
    fix i assume "i < length (map length (map2 (map2 f) xs ys))"
    then have i: "i < length ys" "i < length xs" using l by simp_all
    then show "map length (map2 (map2 f) xs ys) ! i = map length ys ! i"
      using same_shape_nth(2) [OF assms, of i] by simp
  qed
  then show ?thesis by (simp add: same_shape_def tmap2_def)
qed

lemma scale_batch_shape:
  "length cs = length xs \<Longrightarrow> same_shape (scale_batch cs xs) xs"
  unfolding same_shape_def scale_batch_def
  by (rule nth_equalityI) simp_all


lemma same_shape_trans: "same_shape xs ys \<Longrightarrow> same_shape ys zs \<Longrightarrow> same_shape xs zs"
  by (simp add: same_shape_def)

lemma same_shape_sym: "same_shape xs ys \<Longrightarrow> same_shape ys xs"
  by (simp add: same_shape_def)

lemma same_shape_refl [simp]: "same_shape xs xs"
  by (simp add: same_shape_def)

section \<open>The Euclidean branch of the forward process\<close>



section \<open>The parameter \<open>rot_init\<close> of the forward process\<close>

lemma antisym_vec_eye3: "antisym_vec eye3 = (0, 0, 0)"
  by (simp add: antisym_vec_def eye3_def)

lemma forward_euclid_rng:
  assumes "forward_euclid cfg x1 t trans_init g = Inr (eu, g1)"
  shows "(snd eu, g1) = (case trans_init of None \<Rightarrow> randn_like g x1 | Some e \<Rightarrow> (e, g))"
  using assms
  by (auto simp: forward_euclid_def bindE_eq_Inr split: prod.splits if_splits)

lemma forward_rot_noise:
  assumes "forward_rot cfg R0 t g = Inr ((Rt, e2), g')"
  shows "(e2, g') = randn_like g (so3_log_map R0)"
proof -
  obtain e g2 where r: "randn_like g (so3_log_map R0) = (e, g2)"
    by (cases "randn_like g (so3_log_map R0)")
  show ?thesis
    using assms r
    by (auto simp: forward_rot_def bindE_eq_Inr Let_def split: if_splits)
qed

lemma so3_log_map1_eye3: "so3_log_map1 eye3 = (0, 0, 0)"
  by (simp add: so3_log_map1_def antisym_vec_eye3 Let_def)

text \<open>
  Claim C10. The result of \<open>forward_process\<close> does not depend on \<open>rot_init\<close>: two calls
  that differ in this argument only give the same result. The rotational noise returned is
  always a fresh draw from the generator, taken after the draw of the Euclidean branch.
\<close>

theorem forward_process_ignores_rot_init:
  "forward_process cfg x1 R0 t trans_init (rot_init :: 'a option) g
     = forward_process cfg x1 R0 t trans_init (rot_init' :: 'b option) g
   \<and> (\<forall>x1_t e1 Rt e2 g'.
        forward_process cfg x1 R0 t trans_init rot_init g = Inr (((x1_t, e1), (Rt, e2)), g')
        \<longrightarrow> (e2, g') = randn_like (snd (case trans_init of None \<Rightarrow> randn_like g x1
                                                      | Some e \<Rightarrow> (e, g)))
                         (so3_log_map R0))"
proof -
  have "(e2, g') = randn_like (snd (case trans_init of None \<Rightarrow> randn_like g x1 | Some e \<Rightarrow> (e, g)))
                         (so3_log_map R0)"
    if "forward_process cfg x1 R0 t trans_init rot_init g = Inr (((x1_t, e1), (Rt, e2)), g')"
    for x1_t e1 Rt e2 g'
  proof -
    from that obtain eu g1 where fe: "forward_euclid cfg x1 t trans_init g = Inr (eu, g1)"
      and fr: "forward_rot cfg R0 t g1 = Inr ((Rt, e2), g')"
      by (auto simp: forward_process_def bindE_eq_Inr)
    have "g1 = snd (case trans_init of None \<Rightarrow> randn_like g x1 | Some e \<Rightarrow> (e, g))"
      using forward_euclid_rng [OF fe] by (metis snd_conv)
    then show ?thesis using forward_rot_noise [OF fr] by simp
  qed
  then show ?thesis by (simp add: forward_process_def)
qed

theorem forward_process_ignores_rot_init_witness:
  "small_ddpm ''mlp'' zero_model = Inr small_cfg
     \<and> forward_process small_cfg [[(0, 0, 0)]] [[eye3]] [0] (Some [[(0, 0, 0)]]) (Some [[eye3]]) real
         = forward_process small_cfg [[(0, 0, 0)]] [[eye3]] [0] (Some [[(0, 0, 0)]]) (None :: unit option) real
     \<and> (\<exists>x1_t Rt. forward_process small_cfg [[(0, 0, 0)]] [[eye3]] [0] (Some [[(0, 0, 0)]]) (Some [[eye3]]) real
         = Inr (((x1_t, [[(0, 0, 0)]]), (Rt, [[(0, 1, 2)]])), (\<lambda>i. real (i + 3))))"
proof -
  have "\<exists>cfg. small_ddpm ''mlp'' zero_model = Inr cfg
     \<and> forward_process cfg [[(0, 0, 0)]] [[eye3]] [0] (Some [[(0, 0, 0)]]) (Some [[eye3]]) real
         = forward_process cfg [[(0, 0, 0)]] [[eye3]] [0] (Some [[(0, 0, 0)]]) (None :: unit option) real
     \<and> (\<exists>x1_t Rt. forward_process cfg [[(0, 0, 0)]] [[eye3]] [0] (Some [[(0, 0, 0)]]) (Some [[eye3]]) real
         = Inr (((x1_t, [[(0, 0, 0)]]), (Rt, [[(0, 1, 2)]])), (\<lambda>i. real (i + 3))))"
  proof -
    obtain cfg where c: "small_ddpm ''mlp'' zero_model = Inr cfg"
      and ab: "alpha_bar_t cfg = [1 / 2]" and q: "q_param1 cfg = [sqrt (1 / 1000)]"
        "q_param2 cfg = [sqrt (999 / 1000)]"
      using small_ddpm_eq [of "''mlp''" zero_model] by simp
    note th = forward_process_ignores_rot_init [of cfg "[[(0, 0, 0)]]" "[[eye3]]" "[0]"
        "Some [[(0, 0, 0)]]" "Some [[eye3]]" real, where ?'b = unit]
    obtain x1_t e1 Rt e2 g' where
      r: "forward_process cfg [[(0, 0, 0)]] [[eye3]] [0] (Some [[(0, 0, 0)]]) (Some [[eye3]]) real
           = Inr (((x1_t, e1), (Rt, e2)), g')"
      by (simp add: forward_process_def forward_euclid_def forward_rot_def ab q extract_t_def
          fsqrt_def same_shape_def so3_log_map_def Let_def split: prod.splits)
    then have e1: "e1 = [[(0, 0, 0)]]"
      by (auto simp: forward_process_def forward_euclid_def bindE_eq_Inr split: if_splits)
    have "(e2, g') = randn_like real (so3_log_map [[eye3]])"
      using th r by simp
    then have "e2 = [[(0, 1, 2)]]" "g' = (\<lambda>i. real (i + 3))"
      by (simp_all add: so3_log_map_def)
    then show ?thesis using c r e1 th by auto
  qed
  then obtain cfg where c: "small_ddpm ''mlp'' zero_model = Inr cfg"
    and p: "forward_process cfg [[(0, 0, 0)]] [[eye3]] [0] (Some [[(0, 0, 0)]]) (Some [[eye3]]) real
             = forward_process cfg [[(0, 0, 0)]] [[eye3]] [0] (Some [[(0, 0, 0)]]) (None :: unit option) real
         \<and> (\<exists>x1_t Rt. forward_process cfg [[(0, 0, 0)]] [[eye3]] [0] (Some [[(0, 0, 0)]]) (Some [[eye3]]) real
             = Inr (((x1_t, [[(0, 0, 0)]]), (Rt, [[(0, 1, 2)]])), (\<lambda>i. real (i + 3))))"
    by blast
  have e: "cfg = small_cfg" using c small_cfg_eq by simp
  show ?thesis using c p unfolding e by (rule conjI)
qed

section \<open>The estimate of the clean translation in the sampler\<close>

lemma scale_batch_zeros:
  "length cs = length x \<Longrightarrow>
   scale_batch cs (map (map (\<lambda>_. (0, 0, 0))) x) = map (map (\<lambda>_. (0, 0, 0))) x"
  unfolding scale_batch_def
  by (induction cs x rule: list_induct2) simp_all

lemma subv_zero: "subv v (0, 0, 0) = v"
  by (cases v) simp

lemma map2_subv_zeros: "map2 subv row (map (\<lambda>_. (0, 0, 0)) row) = row"
  by (induction row) (simp_all add: subv_zero)

lemma tmap2_subv_zeros: "tmap2 subv x (map (map (\<lambda>_. (0, 0, 0))) x) = x"
  unfolding tmap2_def
  by (induction x) (simp_all add: map2_subv_zeros)

lemma same_shape_zeros: "same_shape (map (map (\<lambda>_. c)) x) x"
  by (simp add: same_shape_def comp_def)

text \<open>
  Claim C2, amended. For an object built by the constructor and timesteps in range, a score
  model that returns zero noise makes the estimate of the clean translation equal to the
  current sample scaled by \<open>x0_param1[t] = 1 / sqrt (a_bars[t])\<close> and clamped to
  \<open>[-1, 1]\<close> in every component.
\<close>

theorem sample_x0_zero_noise:
  assumes cfg: "init nm model bs be sc T sl = Inr cfg"
    and len: "length t = length x1_t"
    and rng: "\<forall>i \<in> set t. 0 \<le> i \<and> i < int T"
  shows "sample_x0 cfg t x1_t (map (map (\<lambda>_. (0, 0, 0))) x1_t)
    = Inr (map2 (\<lambda>i row. map (\<lambda>v. mapv (clamp (- 1) 1) (smulv (1 / sqrt (a_bars cfg ! nat i)) v)) row)
             t x1_t)"
proof -
  have inr: "\<forall>i \<in> set t. 0 \<le> i \<and> nat i < length (a_bars cfg)"
    using rng init_fields(1) [OF cfg] by auto
  let ?c1 = "map (\<lambda>i. x0_param1 cfg ! nat i) t"
  let ?c2 = "map (\<lambda>i. x0_param2 cfg ! nat i) t"
  have e1: "extract_t (x0_param1 cfg) t = Inr ?c1"
    by (rule extract_t_in_range) (use inr init_fields(4) [OF cfg] in simp)
  have e2: "extract_t (x0_param2 cfg) t = Inr ?c2"
    by (rule extract_t_in_range) (use inr init_fields(5) [OF cfg] in simp)
  have "x0_from_noise cfg t x1_t (map (map (\<lambda>_. (0, 0, 0))) x1_t) = Inr (scale_batch ?c1 x1_t)"
    using e1 e2 len
    by (simp add: x0_from_noise_def same_shape_zeros scale_batch_zeros tmap2_subv_zeros)
  moreover have "map (map (mapv (clamp (- 1) 1))) (scale_batch ?c1 x1_t)
    = map2 (\<lambda>i row. map (\<lambda>v. mapv (clamp (- 1) 1) (smulv (1 / sqrt (a_bars cfg ! nat i)) v)) row) t x1_t"
    unfolding scale_batch_def
    by (rule nth_equalityI) (use len inr init_fields(4) [OF cfg] in \<open>simp_all\<close>)
  ultimately show ?thesis by (simp add: sample_x0_def)
qed

lemma sqrt_1000_bounds: "1 < sqrt 1000" "sqrt 1000 \<le> 100" "- 100 \<le> sqrt 1000"
proof -
  have "0 \<le> sqrt 1000" by simp
  then show "- 100 \<le> sqrt 1000" by linarith
  have "sqrt 1 < sqrt 1000" by (rule real_sqrt_less_mono) simp
  then show "1 < sqrt 1000" by simp
  have "sqrt 1000 \<le> sqrt (100\<^sup>2)" by (rule real_sqrt_le_mono) simp
  then show "sqrt 1000 \<le> 100" by simp
qed

theorem sample_x0_zero_noise_witness:
  "small_ddpm ''mlp'' zero_model = Inr small_cfg
     \<and> sample_x0 small_cfg [0] [[(1 / 100, 0, 0)]] [[(0, 0, 0)]] = Inr [[(sqrt 1000 / 100, 0, 0)]]"
proof -
  have "\<exists>cfg. small_ddpm ''mlp'' zero_model = Inr cfg
     \<and> sample_x0 cfg [0] [[(1 / 100, 0, 0)]] [[(0, 0, 0)]] = Inr [[(sqrt 1000 / 100, 0, 0)]]"
  proof -
    obtain cfg where c: "small_ddpm ''mlp'' zero_model = Inr cfg"
      and ab: "a_bars cfg = [1 / 1000]"
      using small_ddpm_eq [of "''mlp''" zero_model] by simp
    have i: "init ''mlp'' zero_model (1 / 2) (1 / 2) 1 1 1 = Inr cfg"
      using c unfolding small_ddpm_def .
    have "sample_x0 cfg [0] [[(1 / 100, 0, 0)]] [[(0, 0, 0)]] = Inr [[(sqrt 1000 / 100, 0, 0)]]"
      using sample_x0_zero_noise [OF i, of "[0]" "[[(1 / 100, 0, 0)]]"] ab sqrt_1000_bounds
      by (simp add: clamp_def real_sqrt_divide)
    then show ?thesis using c by blast
  qed
  then obtain cfg where c: "small_ddpm ''mlp'' zero_model = Inr cfg"
    and p: "sample_x0 cfg [0] [[(1 / 100, 0, 0)]] [[(0, 0, 0)]] = Inr [[(sqrt 1000 / 100, 0, 0)]]"
    by blast
  have e: "cfg = small_cfg" using c small_cfg_eq by simp
  show ?thesis using c p unfolding e by (rule conjI)
qed

text \<open>
  Claim C2, as stated, says that with zero predicted noise the estimate equals the current
  sample. With one timestep the factor \<open>x0_param1[0]\<close> is \<open>sqrt 1000\<close>, and the estimate
  for the sample \<open>(1/100, 0, 0)\<close> is not the sample.
\<close>

theorem sample_x0_zero_noise_differs:
  "small_ddpm ''mlp'' zero_model = Inr small_cfg
     \<and> sample_x0 small_cfg [0] [[(1 / 100, 0, 0)]] [[(0, 0, 0)]] \<noteq> Inr [[(1 / 100, 0, 0)]]"
proof -
  have "\<exists>cfg. small_ddpm ''mlp'' zero_model = Inr cfg
     \<and> sample_x0 cfg [0] [[(1 / 100, 0, 0)]] [[(0, 0, 0)]] \<noteq> Inr [[(1 / 100, 0, 0)]]"
  proof -
    obtain cfg where c: "small_ddpm ''mlp'' zero_model = Inr cfg"
      and x: "x0_param1 cfg = [1 / sqrt (1 / 1000)]" "x0_param2 cfg = [sqrt (999 / 1000)]"
      using small_ddpm_eq [of "''mlp''" zero_model] by simp
    have "sample_x0 cfg [0] [[(1 / 100, 0, 0)]] [[(0, 0, 0)]] = Inr [[(sqrt 1000 / 100, 0, 0)]]"
      using x sqrt_1000_bounds
      by (simp add: sample_x0_def x0_from_noise_def extract_t_def same_shape_def scale_batch_def
          tmap2_def clamp_def real_sqrt_divide max_def min_def)
    then show ?thesis using c sqrt_1000_bounds by auto
  qed
  then obtain cfg where c: "small_ddpm ''mlp'' zero_model = Inr cfg"
    and p: "sample_x0 cfg [0] [[(1 / 100, 0, 0)]] [[(0, 0, 0)]] \<noteq> Inr [[(1 / 100, 0, 0)]]"
    by blast
  have e: "cfg = small_cfg" using c small_cfg_eq by simp
  show ?thesis using c p unfolding e by (rule conjI)
qed

section \<open>The sampler with every noise supplied\<close>

lemma reset_rng_simps [simp]:
  "reset_rng g (Inl e) = Inl e"
  "reset_rng g (Inr (x, g')) = Inr (x, g)"
  "reset_rng g (bindE m f) = bindE m (\<lambda>x. reset_rng g (f x))"
  "reset_rng g (if c then a else b) = (if c then reset_rng g a else reset_rng g b)"
  by (simp_all add: reset_rng_def bindE_def split: sum.splits)

lemma reset_rng_case_prod [simp]:
  "reset_rng g (case p of (a, b) \<Rightarrow> f a b) = (case p of (a, b) \<Rightarrow> reset_rng g (f a b))"
  by (cases p) simp

lemma reset_rng_idem: "reset_rng g (reset_rng g' r) = reset_rng g r"
  by (auto simp: reset_rng_def split: sum.splits)

lemma sample_rot_step_override:
  "sample_rot_step cfg t x2_t p2 (Some rn) g
     = reset_rng g (sample_rot_step cfg t x2_t p2 (Some rn) g0)"
  by (simp add: sample_rot_step_def Let_def cong: if_cong)

lemma rot_bind:
  "bindE (sample_rot_step cfg t x2_t p2 (Some rn) g) (\<lambda>(x2_new, g2). Inr ((x1_new, x2_new), g2))
   = bindE (sample_rot_step cfg t x2_t p2 (Some rn) g0)
       (\<lambda>(x2_new, g2). Inr ((x1_new, x2_new), g))"
proof -
  have "bindE (reset_rng g r) (\<lambda>(x2_new, g2). Inr ((x1_new, x2_new), g2))
      = bindE r (\<lambda>(x2_new, g2). Inr ((x1_new, x2_new), g))"
    for r :: "error + (tensorm \<times> rng)"
    by (auto simp: reset_rng_def bindE_def split: sum.splits)
  then show ?thesis
    using sample_rot_step_override [of cfg t x2_t p2 rn g g0] by simp
qed

lemma sample_step_override:
  "sample_step cfg B L (Some tn) (Some rn) t ((x1_t, x2_t), g)
     = reset_rng g (sample_step cfg B L (Some tn) (Some rn) t ((x1_t, x2_t), g0))"
  unfolding sample_step_def
  by (simp add: Let_def rot_bind [of _ _ _ _ _ g _ g0] split: prod.splits cong: if_cong)

lemma sample_loop_override:
  "sample_loop cfg B L (Some tn) (Some rn) n (st, g)
     = reset_rng g (sample_loop cfg B L (Some tn) (Some rn) n (st, g0))"
proof (induction n arbitrary: st g g0)
  case 0
  show ?case by simp
next
  case (Suc n)
  obtain x1_t x2_t where st: "st = (x1_t, x2_t)" by (cases st)
  show ?case
  proof (cases "sample_step cfg B L (Some tn) (Some rn) n (st, g0)")
    case (Inl e)
    then show ?thesis
      using sample_step_override [of cfg B L tn rn n x1_t x2_t g g0] st by simp
  next
    case (Inr r)
    obtain st' g1 where r: "r = (st', g1)" by (cases r)
    have "sample_step cfg B L (Some tn) (Some rn) n (st, g) = Inr (st', g)"
      using sample_step_override [of cfg B L tn rn n x1_t x2_t g g0] Inr r st by simp
    then show ?thesis
      using Inr r Suc.IH [of st' g g1] by simp
  qed
qed

text \<open>
  Claim C7. When \<open>trans_init\<close>, \<open>rot_init\<close>, \<open>trans_noise\<close> and \<open>rot_noise\<close> are all
  supplied, \<open>sample\<close> draws nothing from the generator: it returns the generator it was
  given, and the run from any other generator state \<open>g0\<close> gives the same error or the same
  pose. The score model is a function of its arguments. A run of two steps that reads the
  supplied noises and returns a pose is at the end of the theory.
\<close>

theorem sample_overrides_deterministic:
  "sample cfg compose_se3 shape num_steps (Some ti) (Some ri) (Some tn) (Some rn) g
     = (case sample cfg compose_se3 shape num_steps (Some ti) (Some ri) (Some tn) (Some rn) g0 of
          Inl e \<Rightarrow> Inl e | Inr (pose, _) \<Rightarrow> Inr (pose, g))"
proof -
  obtain B L where shape: "shape = (B, L)" by (cases shape)
  have "sample cfg compose_se3 shape num_steps (Some ti) (Some ri) (Some tn) (Some rn) g
     = reset_rng g (sample cfg compose_se3 shape num_steps (Some ti) (Some ri) (Some tn) (Some rn) g0)"
    unfolding sample_def shape
    using sample_loop_override [of cfg B L tn rn "nat num_steps" "(ti, ri)" g g0]
    by (auto simp: Let_def reset_rng_def bindE_def split: sum.splits prod.splits)
  then show ?thesis by (simp add: reset_rng_def)
qed

lemma vecs_of_raw_zeros:
  "vecs_of_raw (map (map (map (\<lambda>_. 0))) (raw_of_vecs x)) = Inr (map (map (\<lambda>_. (0, 0, 0))) x)"
proof -
  have row: "mapE vec_of_list (map (map (\<lambda>_. 0) \<circ> vec_to_list) r) = Inr (map (\<lambda>_. (0, 0, 0)) r)"
    for r :: "vec3 list"
    by (induction r) auto
  have "mapE (mapE vec_of_list) (map (map (map (\<lambda>_. 0))) (map (map vec_to_list) x))
      = Inr (map (map (\<lambda>_. (0, 0, 0))) x)"
    by (induction x) (simp_all add: row)
  then show ?thesis by (simp add: vecs_of_raw_def raw_of_vecs_def)
qed

lemma decode_zero_model:
  assumes "model_name cfg \<noteq> ''Unet''"
  shows "decode_scores cfg (zero_model (raw_of_vecs x) x2 t)
    = Inr (map (map (\<lambda>_. (0, 0, 0))) x, map (map (\<lambda>_. (0, 0, 0))) x)"
  using assms by (simp add: decode_scores_def zero_model_def vecs_of_raw_zeros)

section \<open>The denominators of the sampler under the default configuration\<close>

lemma cumprod_from_nth:
  "i < length xs \<Longrightarrow> cumprod_from acc xs ! i = acc * prod_list (take (Suc i) xs)"
proof (induction xs arbitrary: acc i)
  case Nil
  then show ?case by simp
next
  case (Cons x xs)
  show ?case
  proof (cases i)
    case 0
    then show ?thesis by simp
  next
    case (Suc j)
    then have "j < length xs" using Cons.prems by simp
    from Cons.IH [OF this, of "acc * x"] Suc show ?thesis by (simp add: mult.assoc)
  qed
qed

lemma cumprod_last_zero:
  assumes "xs \<noteq> []" and "last xs = 0"
  shows "cumprod xs ! (length xs - 1) = 0"
proof -
  have "cumprod xs ! (length xs - 1) = prod_list (take (Suc (length xs - 1)) xs)"
    unfolding cumprod_def using assms(1) by (subst cumprod_from_nth) simp_all
  also have "\<dots> = prod_list xs" using assms(1) by simp
  also have "\<dots> = 0"
    using assms by (simp add: prod_list_zero_iff) (metis last_in_set)
  finally show ?thesis .
qed

lemma linspace_last:
  assumes "2 \<le> n"
  shows "last (linspace lo hi n) = hi"
proof -
  have n: "n \<noteq> 1" "n - 1 < n" "real (n - 1) \<noteq> 0" using assms by simp_all
  have "last (linspace lo hi n) = linspace lo hi n ! (n - 1)"
    using assms by (simp add: last_conv_nth linspace_def)
  also have "\<dots> = lo + real (n - 1) * ((hi - lo) / real (n - 1))"
    using n by (simp add: linspace_def)
  also have "\<dots> = hi" using n(3) by simp
  finally show ?thesis .
qed

lemma init_rot_schedule:
  assumes "init nm model bs be sc T sl = Inr cfg"
  shows "alpha_bar_t cfg = cumprod (map (\<lambda>b. 1 - b) (linspace bs be T))"
    and "length (sigma cfg) = T" and "length (mean_param1 cfg) = T"
    and "length (mean_param2 cfg) = T" and "length (x0_param1 cfg) = T"
    and "length (x0_param2 cfg) = T"
    and "length (alpha_t cfg) = T" and "length (beta_t cfg) = T"
    and "trans_scale cfg = sc"
  using assms by (auto simp: init_def Let_def split: if_splits)

lemma init_last_alpha_bar:
  assumes cfg: "init nm model bs 1 sc T sl = Inr cfg" and T: "2 \<le> T"
  shows "alpha_bar_t cfg ! (T - 1) = 0"
proof -
  let ?al = "map (\<lambda>b. 1 - b) (linspace bs 1 T)"
  have ne: "?al \<noteq> []" using T by (auto simp: linspace_def)
  have "last ?al = 1 - last (linspace bs 1 T)"
    using ne by (simp add: last_map)
  then have "last ?al = 0" using linspace_last [OF T, of bs 1] by simp
  from cumprod_last_zero [OF ne this] show ?thesis
    using init_rot_schedule(1) [OF cfg] by simp
qed

lemma init_Inr: "T \<noteq> 0 \<Longrightarrow> \<exists>cfg. init nm model bs be sc T sl = Inr cfg"
  unfolding init_def by (simp only: if_False Let_def) blast

lemma default_ddpm_Inr: "\<exists>cfg. default_ddpm nm model = Inr cfg"
  unfolding default_ddpm_def by (rule init_Inr) simp

lemma default_cfg_eq: "default_ddpm ''mlp'' zero_model = Inr default_cfg"
  using default_ddpm_Inr [of "''mlp''" zero_model] by (auto simp: default_cfg_def)

lemma default_alpha_bar_29:
  assumes "default_ddpm nm model = Inr cfg"
  shows "alpha_bar_t cfg ! 29 = 0" and "length (alpha_bar_t cfg) = 30"
proof -
  have i: "init nm model (1 / 10) 1 1 30 128 = Inr cfg"
    using assms unfolding default_ddpm_def .
  from init_last_alpha_bar [OF i] show "alpha_bar_t cfg ! 29 = 0" by simp
  from init_fields(6) [OF i] show "length (alpha_bar_t cfg) = 30" .
qed

lemma concat_Nil_lengths: "concat xs = [] \<longleftrightarrow> (\<forall>n \<in> set (map length xs). n = 0)"
  by (induction xs) auto

text \<open>
  Claim C3 says that every denominator is clamped away from zero, the square root of
  \<open>alpha_bar_t\<close> in the reconstruction of \<open>v_0\<close> included, under the default
  configuration. For the object built with the default arguments the last beta is 1, so the
  last entry of \<open>alpha_bar_t\<close> is 0, its square root is 0 and nothing clamps it: at
  \<open>t = 29\<close>, the first step of the sampler, the reconstruction of \<open>v_0\<close> divides a
  nonempty tensor by zero.
\<close>

theorem v0_reconstruct_default_divides_by_zero:
  assumes "default_ddpm nm model = Inr cfg"
    and "same_shape predicted_score2 v_t" and "concat v_t \<noteq> []"
  shows "alpha_bar_t cfg ! 29 = 0
       \<and> fsqrt (alpha_bar_t cfg ! 29) = Inr 0
       \<and> v0_reconstruct cfg 29 v_t predicted_score2 = Inl NonFinite"
proof -
  note ab = default_alpha_bar_29 [OF assms(1)]
  have l: "length (tmap2 subv v_t (map (map (smulv 1)) predicted_score2)) = length v_t"
    using same_shape_nth(1) [OF assms(2)] by (simp add: tmap2_def)
  have sh: "same_shape (tmap2 subv v_t (map (map (smulv 1)) predicted_score2))
      (map (map (smulv 1)) predicted_score2)"
    by (rule tmap2_shape) (use assms(2) in \<open>simp add: same_shape_def comp_def\<close>)
  have "map length (tmap2 subv v_t (map (map (smulv 1)) predicted_score2)) = map length v_t"
    using sh assms(2) by (simp add: same_shape_def comp_def)
  then have ne: "concat (tmap2 subv v_t (map (map (smulv 1)) predicted_score2)) \<noteq> []"
    using assms(3) concat_Nil_lengths [of v_t]
      concat_Nil_lengths [of "tmap2 subv v_t (map (map (smulv 1)) predicted_score2)"]
    by simp
  show ?thesis
    using ab ne assms(2)
    by (simp add: v0_reconstruct_def list_get_def fsqrt_def tdiv_def)
qed

theorem v0_reconstruct_default_divides_by_zero_witness:
  "default_ddpm ''mlp'' zero_model = Inr default_cfg
     \<and> same_shape ([[(0, 0, 0)]] :: tensorv) ([[(0, 0, 0)]] :: tensorv)
     \<and> concat ([[(0, 0, 0)]] :: tensorv) \<noteq> []
     \<and> alpha_bar_t default_cfg ! 29 = 0
     \<and> v0_reconstruct default_cfg 29 [[(0, 0, 0)]] [[(0, 0, 0)]] = Inl NonFinite"
proof -
  have "\<exists>cfg. default_ddpm ''mlp'' zero_model = Inr cfg
     \<and> same_shape ([[(0, 0, 0)]] :: tensorv) ([[(0, 0, 0)]] :: tensorv)
     \<and> concat ([[(0, 0, 0)]] :: tensorv) \<noteq> []
     \<and> alpha_bar_t cfg ! 29 = 0
     \<and> v0_reconstruct cfg 29 [[(0, 0, 0)]] [[(0, 0, 0)]] = Inl NonFinite"
  proof -
    obtain cfg where c: "default_ddpm ''mlp'' zero_model = Inr cfg"
      using default_ddpm_Inr by blast
    from v0_reconstruct_default_divides_by_zero [OF c, of "[[(0, 0, 0)]]" "[[(0, 0, 0)]]"]
    show ?thesis using c by (auto simp: same_shape_def)
  qed
  then obtain cfg where c: "default_ddpm ''mlp'' zero_model = Inr cfg"
    and p: "same_shape ([[(0, 0, 0)]] :: tensorv) ([[(0, 0, 0)]] :: tensorv)
         \<and> concat ([[(0, 0, 0)]] :: tensorv) \<noteq> []
         \<and> alpha_bar_t cfg ! 29 = 0
         \<and> v0_reconstruct cfg 29 [[(0, 0, 0)]] [[(0, 0, 0)]] = Inl NonFinite"
    by blast
  have e: "cfg = default_cfg" using c default_cfg_eq by simp
  show ?thesis using c p unfolding e by (rule conjI)
qed

section \<open>The terms of the loss\<close>

lemma compute_loss_terms:
  assumes "compute_loss cfg x1 x2 t g = Inr ((loss, loss1, loss2, loss_origin1, loss_origin2), g')"
  shows "\<exists>x1_t epsilon1 x2_t epsilon2 x1_in x2_in p1 p2 x0_1.
      forward_process cfg (map (map (smulv (trans_scale cfg))) x1) x2 t None (None :: unit option) g
        = Inr (((x1_t, epsilon1), (x2_t, epsilon2)), g')
    \<and> x1_in = (if model_name cfg = ''Unet'' then map (transpose_rect 3) (raw_of_vecs x1_t)
               else raw_of_vecs x1_t)
    \<and> x2_in = (if model_name cfg = ''Unet'' then map (transpose_rect 9) (flat_of_mats x2_t)
               else flat_of_mats x2_t)
    \<and> decode_scores cfg (score_model cfg x1_in (Flat x2_in) t) = Inr (p1, p2)
    \<and> x0_from_noise cfg t x1_t p1 = Inr x0_1
    \<and> l1_loss p1 epsilon1 = Inr loss1
    \<and> l1_loss x0_1 x1 = Inr loss_origin1
    \<and> rotation_distance_loss (so3_exp_map p2) (so3_exp_map epsilon2) = Inr loss2
    \<and> loss_origin2 = 0
    \<and> loss = loss1 + loss_origin1 + loss2 + loss_origin2"
proof -
  let ?fp = "forward_process cfg (map (map (smulv (trans_scale cfg))) x1) x2 t None
      (None :: unit option) g"
  from assms obtain r where fp: "?fp = Inr r"
    unfolding compute_loss_def bindE_eq_Inr by blast
  obtain x1_t epsilon1 x2_t epsilon2 g1 where r: "r = (((x1_t, epsilon1), (x2_t, epsilon2)), g1)"
    by (metis prod.exhaust)
  let ?x1_in = "if model_name cfg = ''Unet'' then map (transpose_rect 3) (raw_of_vecs x1_t)
               else raw_of_vecs x1_t"
  let ?x2_in = "if model_name cfg = ''Unet'' then map (transpose_rect 9) (flat_of_mats x2_t)
               else flat_of_mats x2_t"
  from assms fp r obtain pp where
      dec: "decode_scores cfg (score_model cfg ?x1_in (Flat ?x2_in) t) = Inr pp"
    by (auto simp: compute_loss_def Let_def bindE_eq_Inr split: if_splits)
  obtain p1 p2 where pp: "pp = (p1, p2)" by (cases pp)
  from assms fp r dec pp show ?thesis
    by (auto simp: compute_loss_def Let_def bindE_eq_Inr split: if_splits)
qed

lemma linspace_unit:
  assumes "0 \<le> lo" "lo \<le> 1" "0 \<le> hi" "hi \<le> 1"
  shows "\<forall>x \<in> set (linspace lo hi n). 0 \<le> x \<and> x \<le> 1"
proof (cases "n = 1")
  case True
  then show ?thesis using assms by (simp add: linspace_def)
next
  case False
  have "0 \<le> lo + real i * ((hi - lo) / real (n - 1)) \<and> lo + real i * ((hi - lo) / real (n - 1)) \<le> 1"
    if i: "i < n" for i
  proof -
    have n: "0 < real (n - 1)" using i False by (cases n) auto
    define s where "s = real i / real (n - 1)"
    have s: "0 \<le> s" "s \<le> 1" using i n by (simp_all add: s_def)
    have e: "lo + real i * ((hi - lo) / real (n - 1)) = (1 - s) * lo + s * hi"
      by (simp add: s_def algebra_simps add_divide_distrib diff_divide_distrib)
    have "0 \<le> (1 - s) * lo + s * hi" using s assms by simp
    moreover have "(1 - s) * lo + s * hi \<le> (1 - s) * 1 + s * 1"
      using s assms by (intro add_mono mult_left_mono) simp_all
    ultimately show ?thesis unfolding e by simp
  qed
  then show ?thesis using False by (auto simp: linspace_def)
qed

lemma cumprod_from_unit:
  assumes "\<forall>x \<in> set xs. 0 \<le> x \<and> x \<le> 1" and "0 \<le> acc" "acc \<le> 1"
  shows "\<forall>y \<in> set (cumprod_from acc xs). 0 \<le> y \<and> y \<le> 1"
  using assms
proof (induction xs arbitrary: acc)
  case Nil
  then show ?case by simp
next
  case (Cons x xs)
  have x: "0 \<le> x" "x \<le> 1" using Cons.prems(1) by simp_all
  have a: "0 \<le> acc * x" using Cons.prems(2) x by simp
  have "acc * x \<le> 1 * 1" using Cons.prems x by (intro mult_mono) simp_all
  then have b: "acc * x \<le> 1" by simp
  from Cons.IH [OF _ a b] Cons.prems(1) a b show ?case by simp
qed

lemma init_alpha_bar_unit:
  assumes cfg: "init nm model bs be sc T sl = Inr cfg"
    and "0 \<le> bs" "bs \<le> 1" "0 \<le> be" "be \<le> 1"
  shows "\<forall>x \<in> set (alpha_bar_t cfg). 0 \<le> x \<and> x \<le> 1"
proof -
  have "\<forall>x \<in> set (map (\<lambda>b. 1 - b) (linspace bs be T)). 0 \<le> x \<and> x \<le> 1"
    using linspace_unit [OF assms(2-5), of T] by auto
  from cumprod_from_unit [OF this, of 1] show ?thesis
    using init_rot_schedule(1) [OF cfg] by (simp add: cumprod_def)
qed

lemma mapE_Inr:
  assumes "\<forall>x \<in> set xs. \<exists>y. f x = Inr y"
  shows "\<exists>ys. mapE f xs = Inr ys \<and> length ys = length xs"
  using assms
proof (induction xs)
  case Nil
  show ?case by simp
next
  case (Cons x xs)
  then obtain y ys where "f x = Inr y" "mapE f xs = Inr ys" "length ys = length xs" by auto
  then show ?case by simp
qed

lemma forward_rot_returns:
  assumes cfg: "init nm model bs be sc T sl = Inr cfg"
    and b: "0 \<le> bs" "bs \<le> 1" "0 \<le> be" "be \<le> 1"
    and len: "length t = length R0"
    and rng: "\<forall>i \<in> set t. 0 \<le> i \<and> i < int T"
  shows "\<exists>Rt eps g2. forward_rot cfg R0 t g = Inr ((Rt, eps), g2)
      \<and> same_shape Rt R0 \<and> same_shape eps R0"
proof -
  let ?ab = "map (\<lambda>i. alpha_bar_t cfg ! nat i) t"
  have inr: "\<forall>i \<in> set t. 0 \<le> i \<and> nat i < length (alpha_bar_t cfg)"
    using rng init_fields(6) [OF cfg] by auto
  have ex: "extract_t (alpha_bar_t cfg) t = Inr ?ab"
    by (rule extract_t_in_range [OF inr])
  have u: "\<forall>x \<in> set ?ab. 0 \<le> x \<and> x \<le> 1"
    using init_alpha_bar_unit [OF cfg b] inr by auto
  have h0: "\<forall>x \<in> set ?ab. \<exists>y. fsqrt x = Inr y"
    using u by (auto simp: fsqrt_def not_less)
  have h1: "\<forall>x \<in> set ?ab. \<exists>y. fsqrt (1 - x) = Inr y"
    using u by (auto simp: fsqrt_def not_less)
  obtain s0 where s0: "mapE fsqrt ?ab = Inr s0" "length s0 = length ?ab"
    using mapE_Inr [OF h0] by blast
  obtain s1 where s1: "mapE (\<lambda>x. fsqrt (1 - x)) ?ab = Inr s1" "length s1 = length ?ab"
    using mapE_Inr [OF h1] by blast
  obtain eps g2 where r: "randn_like g (so3_log_map R0) = (eps, g2)"
    by (cases "randn_like g (so3_log_map R0)")
  have shv: "same_shape (so3_log_map R0) R0"
    by (simp add: same_shape_def so3_log_map_def comp_def)
  have she: "same_shape eps R0"
    using randn_like_shape [of g "so3_log_map R0"] r shv by (simp add: same_shape_def)
  let ?vt = "tmap2 addv (scale_batch s0 (so3_log_map R0)) (scale_batch s1 eps)"
  have l0: "length s0 = length (so3_log_map R0)" using s0(2) len by (simp add: so3_log_map_def)
  have l1: "length s1 = length eps"
    using s1(2) len same_shape_nth(1) [OF she] by simp
  have a: "same_shape (scale_batch s0 (so3_log_map R0)) R0"
    using scale_batch_shape [OF l0] shv by (simp add: same_shape_def)
  have c: "same_shape (scale_batch s1 eps) R0"
    using scale_batch_shape [OF l1] she by (simp add: same_shape_def)
  have "same_shape (scale_batch s0 (so3_log_map R0)) (scale_batch s1 eps)"
    using a c by (simp add: same_shape_def)
  from tmap2_shape [OF this, of addv] have "same_shape ?vt R0"
    using c by (simp add: same_shape_def)
  then have "same_shape (so3_exp_map ?vt) R0"
    by (simp add: same_shape_def so3_exp_map_def comp_def)
  moreover have "forward_rot cfg R0 t g = Inr ((so3_exp_map ?vt, eps), g2)"
    using ex s0(1) s1(1) r len by (simp add: forward_rot_def Let_def)
  ultimately show ?thesis using she by blast
qed

lemma tmap2_elems:
  assumes "l \<in> set (concat (tmap2 f p q))"
  shows "\<exists>u v. l = f u v"
  using assms by (auto simp: tmap2_def)

lemma tmap2_nonempty:
  assumes "same_shape p q" and "concat q \<noteq> []"
  shows "concat (tmap2 f p q) \<noteq> []"
proof -
  have "map length (tmap2 f p q) = map length q"
    using tmap2_shape [OF assms(1), of f] by (simp add: same_shape_def)
  then show ?thesis
    using assms(2) concat_Nil_lengths [of q] concat_Nil_lengths [of "tmap2 f p q"] by simp
qed

lemma abs_diffs_nonempty: "abs_diffs u v \<noteq> []"
  by (cases u, cases v) simp

lemma l1_loss_returns:
  assumes "same_shape p q" and "concat q \<noteq> []"
  shows "\<exists>m. l1_loss p q = Inr m"
proof -
  from tmap2_nonempty [OF assms, of abs_diffs]
  obtain l where l: "l \<in> set (concat (tmap2 abs_diffs p q))"
    by (meson last_in_set)
  then have "l \<noteq> []" using tmap2_elems [OF l] abs_diffs_nonempty by auto
  then have "concat (concat (tmap2 abs_diffs p q)) \<noteq> []" using l by auto
  then show ?thesis using assms(1) by (simp add: l1_loss_def mean_all_def)
qed

lemma rotation_distance_loss_returns:
  assumes "same_shape P Q" and "concat Q \<noteq> []"
  shows "\<exists>m. rotation_distance_loss P Q = Inr m"
  using tmap2_nonempty [OF assms, of "\<lambda>P Q. (rot_angle P Q)\<^sup>2"] assms(1)
  by (simp add: rotation_distance_loss_def mean_all_def)

lemma forward_euclid_returns:
  assumes cfg: "init nm model bs be sc T sl = Inr cfg"
    and len: "length t = length x1"
    and rng: "\<forall>i \<in> set t. 0 \<le> i \<and> i < int T"
  shows "\<exists>x1_t eps g1. forward_euclid cfg x1 t None g = Inr ((x1_t, eps), g1)
      \<and> same_shape x1_t x1 \<and> same_shape eps x1"
proof -
  obtain eps g1 where r: "randn_like g x1 = (eps, g1)" by (cases "randn_like g x1")
  have sh: "same_shape eps x1" using randn_like_shape [of g x1] r by simp
  have inr: "\<forall>i \<in> set t. 0 \<le> i \<and> nat i < T" using rng by auto
  let ?q1 = "map (\<lambda>i. q_param1 cfg ! nat i) t" and ?q2 = "map (\<lambda>i. q_param2 cfg ! nat i) t"
  have e1: "extract_t (q_param1 cfg) t = Inr ?q1"
    by (rule extract_t_in_range) (use inr init_fields(1,2) [OF cfg] in simp)
  have e2: "extract_t (q_param2 cfg) t = Inr ?q2"
    by (rule extract_t_in_range) (use inr init_fields(1,3) [OF cfg] in simp)
  let ?x = "tmap2 addv (scale_batch ?q1 x1) (scale_batch ?q2 eps)"
  have le: "length eps = length x1" using sh by (rule same_shape_nth)
  have s1: "same_shape (scale_batch ?q1 x1) x1" by (rule scale_batch_shape) (simp add: len)
  have s2: "same_shape (scale_batch ?q2 eps) x1"
    using scale_batch_shape [of ?q2 eps] sh len le by (simp add: same_shape_def)
  have "same_shape (scale_batch ?q1 x1) (scale_batch ?q2 eps)"
    using s1 s2 by (simp add: same_shape_def)
  from tmap2_shape [OF this, of addv] have "same_shape ?x x1"
    using s2 by (simp add: same_shape_def)
  moreover have "forward_euclid cfg x1 t None g = Inr ((?x, eps), g1)"
    using r e1 e2 len sh by (simp add: forward_euclid_def)
  ultimately show ?thesis using sh by blast
qed

lemma x0_from_noise_returns:
  assumes cfg: "init nm model bs be sc T sl = Inr cfg"
    and len: "length t = length x1_t"
    and rng: "\<forall>i \<in> set t. 0 \<le> i \<and> i < int T"
    and p: "same_shape p1 x1_t"
  shows "\<exists>x0. x0_from_noise cfg t x1_t p1 = Inr x0 \<and> same_shape x0 x1_t"
proof -
  have inr: "\<forall>i \<in> set t. 0 \<le> i \<and> nat i < T" using rng by auto
  let ?c1 = "map (\<lambda>i. x0_param1 cfg ! nat i) t" and ?c2 = "map (\<lambda>i. x0_param2 cfg ! nat i) t"
  have e1: "extract_t (x0_param1 cfg) t = Inr ?c1"
    by (rule extract_t_in_range) (use inr init_rot_schedule(5) [OF cfg] in simp)
  have e2: "extract_t (x0_param2 cfg) t = Inr ?c2"
    by (rule extract_t_in_range) (use inr init_rot_schedule(6) [OF cfg] in simp)
  have lp: "length p1 = length x1_t" using p by (rule same_shape_nth)
  have s2: "same_shape (scale_batch ?c2 p1) x1_t"
    using scale_batch_shape [of ?c2 p1] p len lp by (simp add: same_shape_def)
  have "same_shape x1_t (scale_batch ?c2 p1)" using s2 by (simp add: same_shape_def)
  from tmap2_shape [OF this, of subv]
  have s3: "same_shape (tmap2 subv x1_t (scale_batch ?c2 p1)) x1_t"
    using s2 by (simp add: same_shape_def)
  have "length ?c1 = length (tmap2 subv x1_t (scale_batch ?c2 p1))"
    using same_shape_nth(1) [OF s3] len by simp
  from scale_batch_shape [OF this]
  have "same_shape (scale_batch ?c1 (tmap2 subv x1_t (scale_batch ?c2 p1))) x1_t"
    using s3 by (simp add: same_shape_def)
  moreover have "x0_from_noise cfg t x1_t p1
      = Inr (scale_batch ?c1 (tmap2 subv x1_t (scale_batch ?c2 p1)))"
    using e1 e2 len p by (simp add: x0_from_noise_def)
  ultimately show ?thesis by blast
qed

lemma compute_loss_returns:
  assumes cfg: "init nm model bs be sc T sl = Inr cfg"
    and b: "0 \<le> bs" "bs \<le> 1" "0 \<le> be" "be \<le> 1"
    and len: "length t = length x1"
    and rng: "\<forall>i \<in> set t. 0 \<le> i \<and> i < int T"
    and sh: "same_shape x2 x1" and ne: "concat x1 \<noteq> []"
    and model: "\<forall>x1_t x2_t. same_shape x1_t x1 \<and> same_shape x2_t x1 \<longrightarrow>
        (\<exists>p1 p2. decode_scores cfg (score_model cfg
             (if model_name cfg = ''Unet'' then map (transpose_rect 3) (raw_of_vecs x1_t)
              else raw_of_vecs x1_t)
             (Flat (if model_name cfg = ''Unet'' then map (transpose_rect 9) (flat_of_mats x2_t)
                    else flat_of_mats x2_t)) t) = Inr (p1, p2)
           \<and> same_shape p1 x1 \<and> same_shape p2 x1)"
  shows "\<exists>res g'. compute_loss cfg x1 x2 t g = Inr (res, g')"
proof -
  let ?x1s = "map (map (smulv (trans_scale cfg))) x1"
  have shs: "same_shape ?x1s x1" by (simp add: same_shape_def comp_def)
  have lens: "length t = length ?x1s" using len by simp
  obtain x1_t e1 g1 where fe: "forward_euclid cfg ?x1s t None g = Inr ((x1_t, e1), g1)"
    and sx: "same_shape x1_t x1" and se1: "same_shape e1 x1"
    using forward_euclid_returns [OF cfg lens rng, of g] shs by (auto simp: same_shape_def)
  have len2: "length t = length x2" using len same_shape_nth(1) [OF sh] by simp
  obtain x2_t e2 g2 where fr: "forward_rot cfg x2 t g1 = Inr ((x2_t, e2), g2)"
    and sx2: "same_shape x2_t x1" and se2: "same_shape e2 x1"
    using forward_rot_returns [OF cfg b len2 rng, of g1] sh by (auto simp: same_shape_def)
  have fp: "forward_process cfg ?x1s x2 t None (None :: unit option) g
      = Inr (((x1_t, e1), (x2_t, e2)), g2)"
    using fe fr by (simp add: forward_process_def)
  let ?x1_in = "if model_name cfg = ''Unet'' then map (transpose_rect 3) (raw_of_vecs x1_t)
               else raw_of_vecs x1_t"
  let ?x2_in = "if model_name cfg = ''Unet'' then map (transpose_rect 9) (flat_of_mats x2_t)
               else flat_of_mats x2_t"
  obtain p1 p2 where dec: "decode_scores cfg (score_model cfg ?x1_in (Flat ?x2_in) t) = Inr (p1, p2)"
    and sp1: "same_shape p1 x1" and sp2: "same_shape p2 x1"
    using model sx sx2 by blast
  have lt: "length t = length x1_t" using len same_shape_nth(1) [OF sx] by simp
  have "same_shape p1 x1_t" using sp1 sx by (simp add: same_shape_def)
  from x0_from_noise_returns [OF cfg lt rng this]
  obtain x0_1 where x0: "x0_from_noise cfg t x1_t p1 = Inr x0_1" and sx0: "same_shape x0_1 x1"
    using sx by (auto simp: same_shape_def)
  have ne1: "concat e1 \<noteq> []"
    using ne se1 concat_Nil_lengths [of e1] concat_Nil_lengths [of x1] by (simp add: same_shape_def)
  have "same_shape p1 e1" using sp1 se1 by (simp add: same_shape_def)
  from l1_loss_returns [OF this ne1] obtain loss1 where l1: "l1_loss p1 e1 = Inr loss1" by blast
  from l1_loss_returns [OF sx0 ne] obtain lo1 where l2: "l1_loss x0_1 x1 = Inr lo1" by blast
  have "same_shape (so3_exp_map p2) (so3_exp_map e2)"
    using sp2 se2 by (simp add: same_shape_def so3_exp_map_def comp_def)
  moreover have "concat (so3_exp_map e2) \<noteq> []"
    using ne se2 concat_Nil_lengths [of "so3_exp_map e2"] concat_Nil_lengths [of x1]
    by (simp add: same_shape_def so3_exp_map_def comp_def)
  ultimately obtain loss2 where
    l3: "rotation_distance_loss (so3_exp_map p2) (so3_exp_map e2) = Inr loss2"
    using rotation_distance_loss_returns by blast
  show ?thesis
    using fp sx2 dec x0 l1 l2 l3 by (simp add: compute_loss_def Let_def)
qed



section \<open>The exponential map gives rotations; round trips\<close>

lemma norm3_sq: "(norm3 v)\<^sup>2 = sqnorm3 v"
  by (cases v) (simp add: sqnorm3_def)

lemma norm3_nonneg: "0 \<le> norm3 v"
  by (cases v) simp

lemma so3_exp_map1_rodrigues:
  "so3_exp_map1 v =
     rodrigues (sin (norm3 v) / clamp_min (1 / 10 ^ 8) (norm3 v))
               ((1 - cos (norm3 v)) / (clamp_min (1 / 10 ^ 8) (norm3 v))\<^sup>2) v"
  by (simp add: so3_exp_map1_def rodrigues_def Let_def)

lemma rodrigues_explicit:
  "rodrigues a b (x, y, z) =
     ((1 - b * (y\<^sup>2 + z\<^sup>2), - (a * z) + b * (x * y), a * y + b * (x * z)),
      (a * z + b * (x * y), 1 - b * (x\<^sup>2 + z\<^sup>2), - (a * x) + b * (y * z)),
      (- (a * y) + b * (x * z), a * x + b * (y * z), 1 - b * (x\<^sup>2 + y\<^sup>2)))"
  by (simp add: rodrigues_def eye3_def algebra_simps power2_eq_square)

lemma mtrace_rodrigues: "mtrace (rodrigues a b v) = 3 - 2 * b * sqnorm3 v"
  by (cases v) (simp add: rodrigues_explicit sqnorm3_def algebra_simps)

lemma antisym_vec_rodrigues: "antisym_vec (rodrigues a b v) = smulv a v"
  by (cases v) (simp add: rodrigues_explicit antisym_vec_def algebra_simps)

lemma rodrigues_gram:
  "mmul (mtranspose (rodrigues a b v)) (rodrigues a b v)
     = rodrigues 0 (2 * b - a\<^sup>2 - b\<^sup>2 * sqnorm3 v) v"
proof -
  obtain x y z where v: "v = (x, y, z)" by (cases v)
  show ?thesis
    unfolding v rodrigues_explicit sqnorm3_def
    by (simp add: power2_eq_square algebra_simps)
qed

lemma mdet_rodrigues:
  "mdet (rodrigues a b v) = (1 - b * sqnorm3 v)\<^sup>2 + a\<^sup>2 * sqnorm3 v"
proof -
  obtain x y z where v: "v = (x, y, z)" by (cases v)
  show ?thesis
    unfolding v rodrigues_explicit sqnorm3_def
    by (simp add: power2_eq_square algebra_simps)
qed

lemma rodrigues_zero: "rodrigues 0 0 v = eye3"
  by (cases v) (simp add: rodrigues_explicit eye3_def)

lemma so3_exp_map1_large:
  assumes "1 / 10 ^ 8 \<le> norm3 v"
  shows "so3_exp_map1 v = rodrigues (sin (norm3 v) / norm3 v) ((1 - cos (norm3 v)) / (norm3 v)\<^sup>2) v"
  using assms by (simp add: so3_exp_map1_rodrigues clamp_min_def max_def)

lemma rodrigues_rotation:
  assumes th: "\<theta> \<noteq> 0" and n: "sqnorm3 v = \<theta>\<^sup>2"
  shows "is_rotation (rodrigues (sin \<theta> / \<theta>) ((1 - cos \<theta>) / \<theta>\<^sup>2) v)"
proof -
  let ?a = "sin \<theta> / \<theta>" and ?b = "(1 - cos \<theta>) / \<theta>\<^sup>2"
  have sc: "(sin \<theta>)\<^sup>2 = 1 - (cos \<theta>)\<^sup>2"
    by (rule sin_squared_eq)
  have b: "?b * \<theta>\<^sup>2 = 1 - cos \<theta>" using th by simp
  have a: "?a\<^sup>2 * \<theta>\<^sup>2 = (sin \<theta>)\<^sup>2" using th by (simp add: power_divide)
  have "(2 * ?b - ?a\<^sup>2 - ?b\<^sup>2 * \<theta>\<^sup>2) * \<theta>\<^sup>2
      = 2 * (?b * \<theta>\<^sup>2) - ?a\<^sup>2 * \<theta>\<^sup>2 - (?b * \<theta>\<^sup>2)\<^sup>2"
    by (simp add: algebra_simps power2_eq_square)
  also have "\<dots> = 0" unfolding a b sc by (simp add: power2_eq_square algebra_simps)
  finally have k: "2 * ?b - ?a\<^sup>2 - ?b\<^sup>2 * \<theta>\<^sup>2 = 0" using th by simp
  have g: "mmul (mtranspose (rodrigues ?a ?b v)) (rodrigues ?a ?b v) = eye3"
    unfolding rodrigues_gram n k by (rule rodrigues_zero)
  have "mdet (rodrigues ?a ?b v) = (1 - ?b * \<theta>\<^sup>2)\<^sup>2 + ?a\<^sup>2 * \<theta>\<^sup>2"
    unfolding mdet_rodrigues n ..
  also have "\<dots> = 1" unfolding a b sc by (simp add: power2_eq_square algebra_simps)
  finally show ?thesis using g by (simp add: is_rotation_def)
qed

lemma so3_exp_map1_rotation:
  assumes "1 / 10 ^ 8 \<le> norm3 v \<or> v = (0, 0, 0)"
  shows "is_rotation (so3_exp_map1 v)"
proof (cases "v = (0, 0, 0)")
  case True
  then show ?thesis by (simp add: so3_exp_map1_zero is_rotation_def eye3_def)
next
  case False
  then have l: "1 / 10 ^ 8 \<le> norm3 v" using assms by simp
  then have "norm3 v \<noteq> 0" by auto
  from rodrigues_rotation [OF this, of v] show ?thesis
    using so3_exp_map1_large [OF l] by (simp add: norm3_sq)
qed

lemma angle_bounds:
  shows "0 < arccos (1 - 1 / 10 ^ 7)"
    and "arccos (1 - 1 / 10 ^ 7) < arccos (- 1 + 1 / 10 ^ 7)"
    and "arccos (- 1 + 1 / 10 ^ 7) < pi"
    and "1 / 10 ^ 8 \<le> arccos (1 - 1 / 10 ^ 7)"
proof -
  show "0 < arccos (1 - 1 / 10 ^ 7)"
    using arccos_lt_bounded [of "1 - 1 / 10 ^ 7"] by simp
  show "arccos (1 - 1 / 10 ^ 7) < arccos (- 1 + 1 / 10 ^ 7)"
    by (rule arccos_less_arccos) simp_all
  show "arccos (- 1 + 1 / 10 ^ 7) < pi"
    using arccos_lt_bounded [of "- 1 + 1 / 10 ^ 7"] by simp
  show "1 / 10 ^ 8 \<le> arccos (1 - 1 / 10 ^ 7)"
  proof (rule ccontr)
    assume "\<not> 1 / 10 ^ 8 \<le> arccos (1 - 1 / 10 ^ 7)"
    then have lt: "arccos (1 - 1 / 10 ^ 7) < 1 / 10 ^ 8" by simp
    have "0 \<le> arccos (1 - 1 / 10 ^ 7)" by (rule arccos_lbound) simp_all
    moreover have "(1 :: real) / 10 ^ 8 \<le> pi" using pi_ge_two by simp
    ultimately have "cos (1 / 10 ^ 8 :: real) < cos (arccos (1 - 1 / 10 ^ 7))"
      using lt by (intro cos_monotone_0_pi) simp_all
    then have "cos (1 / 10 ^ 8 :: real) < 1 - 1 / 10 ^ 7" by simp
    moreover have "1 - (1 / 10 ^ 8)\<^sup>2 / 2 \<le> cos (1 / 10 ^ 8 :: real)"
      by (rule cos_ge_quadratic)
    ultimately show False by (simp add: power2_eq_square)
  qed
qed

lemma log_exp_in_range:
  assumes lo: "arccos (1 - 1 / 10 ^ 7) \<le> norm3 v" and hi: "norm3 v \<le> arccos (- 1 + 1 / 10 ^ 7)"
  shows "so3_log_map1 (so3_exp_map1 v) = v"
proof -
  let ?t = "norm3 v"
  note ab = angle_bounds
  have t8: "1 / 10 ^ 8 \<le> ?t" using lo ab(4) by simp
  have t0: "0 < ?t" using lo ab(1) by simp
  have tpi: "?t < pi" using hi ab(3) by simp
  have c1: "cos ?t \<le> 1 - 1 / 10 ^ 7"
    using cos_monotone_0_pi_le [of "arccos (1 - 1 / 10 ^ 7)" ?t] lo tpi ab(1) by simp
  have c2: "- 1 + 1 / 10 ^ 7 \<le> cos ?t"
    using cos_monotone_0_pi_le [of ?t "arccos (- 1 + 1 / 10 ^ 7)"] hi t0 ab(3) by simp
  have tr: "(mtrace (so3_exp_map1 v) - 1) / 2 = cos ?t"
    using t0 by (simp add: so3_exp_map1_large [OF t8] mtrace_rodrigues norm3_sq [symmetric])
  have cl: "clamp (- 1 + 1 / 10 ^ 7) (1 - 1 / 10 ^ 7) (cos ?t) = cos ?t"
    using c1 c2 by (simp add: clamp_def)
  have ac: "arccos (cos ?t) = ?t" using t0 tpi by (simp add: arccos_cos)
  have s: "sin ?t \<noteq> 0" using sin_gt_zero [OF t0 tpi] by simp
  have "so3_log_map1 (so3_exp_map1 v) = smulv (?t / sin ?t) (smulv (sin ?t / ?t) v)"
    unfolding so3_log_map1_def Let_def tr cl ac
    using t8 by (simp add: so3_exp_map1_large [OF t8] antisym_vec_rodrigues clamp_min_def max_def)
  also have "\<dots> = v" using s t0 by (cases v) simp
  finally show ?thesis .
qed

lemma log_map_half_turn:
  "so3_log_map1 ((1, 0, 0), (0, - 1, 0), (0, 0, - 1)) = (0, 0, 0)"
  by (simp add: so3_log_map1_def antisym_vec_def Let_def)

lemma half_turn_rotation: "is_rotation ((1, 0, 0), (0, - 1, 0), (0, 0, - 1))"
  by (simp add: is_rotation_def eye3_def)

lemma near_pi_log_exp:
  fixes t :: real
  defines "t \<equiv> arccos (- 1 + 1 / 10 ^ 9)"
  shows "norm3 (t, 0, 0) < pi" and "1 \<le> t"
    and "fst (so3_log_map1 (so3_exp_map1 (t, 0, 0))) \<le> t / 2"
proof -
  let ?c = "arccos (- 1 + 1 / 10 ^ 7)"
  have tb: "0 < t" "t < pi" unfolding t_def using arccos_lt_bounded [of "- 1 + 1 / 10 ^ 9"] by simp_all
  have ct: "cos t = - 1 + 1 / 10 ^ 9" unfolding t_def by simp
  have cc: "cos ?c = - 1 + 1 / 10 ^ 7" by simp
  have c_lt: "?c < t" unfolding t_def by (rule arccos_less_arccos) simp_all
  have cpos: "0 < ?c" using angle_bounds by simp
  have "pi / 2 < t"
  proof -
    have "arccos 0 < arccos (- 1 + 1 / 10 ^ 9)" by (rule arccos_less_arccos) simp_all
    then show ?thesis by (simp add: t_def)
  qed
  then show t1: "1 \<le> t" using pi_ge_two by simp
  have n: "norm3 (t, 0, 0) = t" using tb by simp
  show "norm3 (t, 0, 0) < pi" using n tb by simp
  have t8: "1 / 10 ^ 8 \<le> norm3 (t, 0, 0)" using n t1 by simp
  have tr: "(mtrace (so3_exp_map1 (t, 0, 0)) - 1) / 2 = cos t"
    using tb by (simp add: so3_exp_map1_large [OF t8] mtrace_rodrigues sqnorm3_def)
  have cl: "clamp (- 1 + 1 / 10 ^ 7) (1 - 1 / 10 ^ 7) (cos t) = - 1 + 1 / 10 ^ 7"
    unfolding ct by (simp add: clamp_def)
  have c8: "clamp_min (1 / 10 ^ 8) ?c = ?c"
    using angle_bounds by (simp add: clamp_min_def max_def)
  have le: "so3_log_map1 (so3_exp_map1 (t, 0, 0)) = smulv (?c / sin ?c) (smulv (sin t / t) (t, 0, 0))"
    unfolding so3_log_map1_def Let_def tr cl c8
    using n by (simp add: so3_exp_map1_large [OF t8] antisym_vec_rodrigues)
  have st: "sin t = sqrt (1 - (- 1 + 1 / 10 ^ 9)\<^sup>2)"
    unfolding t_def by (rule sin_arccos) simp_all
  have sc: "sin ?c = sqrt (1 - (- 1 + 1 / 10 ^ 7)\<^sup>2)"
    by (rule sin_arccos) simp_all
  have scpos: "0 < sin ?c" using sin_gt_zero [OF cpos] angle_bounds(3) by simp
  have stpos: "0 \<le> sin t" using sin_ge_zero [of t] tb by simp
  have sq: "(2 * sin t)\<^sup>2 \<le> (sin ?c)\<^sup>2"
    unfolding st sc by (simp add: power2_eq_square)
  have "2 * sin t \<le> sin ?c"
    by (rule power2_le_imp_le [OF sq]) (use scpos in simp)
  then have r: "sin t / sin ?c \<le> 1 / 2" using scpos by (simp add: field_simps)
  have "fst (so3_log_map1 (so3_exp_map1 (t, 0, 0))) = ?c * (sin t / sin ?c)"
    unfolding le using tb by simp
  also have "\<dots> \<le> ?c * (1 / 2)" using r cpos by (intro mult_left_mono) simp_all
  also have "\<dots> \<le> t / 2" using c_lt by simp
  finally show "fst (so3_log_map1 (so3_exp_map1 (t, 0, 0))) \<le> t / 2" .
qed

lemma norm3_smulv: "norm3 (smulv c v) = \<bar>c\<bar> * norm3 v"
proof -
  obtain x y z where v: "v = (x, y, z)" by (cases v)
  have "(c * x)\<^sup>2 + (c * y)\<^sup>2 + (c * z)\<^sup>2 = c\<^sup>2 * (x\<^sup>2 + y\<^sup>2 + z\<^sup>2)"
    by (simp add: power2_eq_square algebra_simps)
  then show ?thesis by (simp add: v real_sqrt_mult)
qed

lemma subv_smulv: "subv (smulv k v) v = smulv (k - 1) v"
  by (cases v) (simp add: algebra_simps)

lemma small_angle_bound:
  shows "arccos (1 - 1 / 10 ^ 7) \<le> 1 / 1000"
    and "arccos (1 - 1 / 10 ^ 7) / sin (arccos (1 - 1 / 10 ^ 7)) \<le> 1 / (1 - 1 / 10 ^ 7)"
    and "1 \<le> arccos (1 - 1 / 10 ^ 7) / sin (arccos (1 - 1 / 10 ^ 7))"
proof -
  let ?c = "arccos (1 - 1 / 10 ^ 7)"
  note ab = angle_bounds
  have cpi: "?c < pi" using ab by simp
  have sc: "sin ?c = sqrt (1 - (1 - 1 / 10 ^ 7)\<^sup>2)" by (rule sin_arccos) simp_all
  have spos: "0 < sin ?c" using sin_gt_zero [OF ab(1) cpi] .
  have cc: "cos ?c = 1 - 1 / 10 ^ 7" by simp
  have "?c * cos ?c \<le> sin ?c" using x_cos_le_sin [of ?c] ab(1) cpi by simp
  then have le: "?c * (1 - 1 / 10 ^ 7) \<le> sin ?c" unfolding cc .
  have "sin ?c \<le> sqrt ((1 / 2000)\<^sup>2)"
    unfolding sc by (rule real_sqrt_le_mono) (simp add: power2_eq_square)
  then have s2: "sin ?c \<le> 1 / 2000" by simp
  show "?c \<le> 1 / 1000" using le s2 by simp
  show "?c / sin ?c \<le> 1 / (1 - 1 / 10 ^ 7)"
    using le spos by (simp add: field_simps)
  have "sin ?c \<le> ?c" using sin_x_le_x [of ?c] ab(1) by simp
  then show "1 \<le> ?c / sin ?c" using spos by (simp add: field_simps)
qed

lemma clamp_upper: "hi \<le> x \<Longrightarrow> lo \<le> hi \<Longrightarrow> clamp lo hi x = hi"
  by (simp add: clamp_def)

lemma log_exp_small:
  assumes sm: "norm3 v < arccos (1 - 1 / 10 ^ 7)"
  shows "norm3 (subv (so3_log_map1 (so3_exp_map1 v)) v) \<le> 1 / 10 ^ 8"
proof -
  let ?t = "norm3 v" and ?c = "arccos (1 - 1 / 10 ^ 7)"
  let ?tc = "clamp_min (1 / 10 ^ 8) ?t"
  let ?a = "sin ?t / ?tc" and ?b = "(1 - cos ?t) / ?tc\<^sup>2"
  note ab = angle_bounds and sb = small_angle_bound
  have t0: "0 \<le> ?t" by (rule norm3_nonneg)
  have tpi: "?t \<le> pi" using sm ab by simp
  have tcpos: "0 < ?tc" by (simp add: clamp_min_def max_def)
  have tle: "?t \<le> ?tc" by (simp add: clamp_min_def)
  have cost: "1 - 1 / 10 ^ 7 < cos ?t"
  proof -
    have "cos ?c < cos ?t" using t0 sm ab by (intro cos_monotone_0_pi) simp_all
    then show ?thesis by simp
  qed
  have bnn: "0 \<le> ?b" using tcpos by simp
  have "?t\<^sup>2 \<le> ?tc\<^sup>2" using t0 tle by (simp add: power_mono)
  then have "?t\<^sup>2 / ?tc\<^sup>2 \<le> 1" using tcpos by simp
  then have "(1 - cos ?t) * (?t\<^sup>2 / ?tc\<^sup>2) \<le> (1 - cos ?t) * 1"
    by (intro mult_left_mono) simp_all
  then have bt: "?b * ?t\<^sup>2 \<le> 1 - cos ?t" by simp
  have tr: "(mtrace (so3_exp_map1 v) - 1) / 2 = 1 - ?b * ?t\<^sup>2"
    by (simp add: so3_exp_map1_rodrigues mtrace_rodrigues norm3_sq)
  have "1 - 1 / 10 ^ 7 \<le> 1 - ?b * ?t\<^sup>2" using bt cost by linarith
  then have cl: "clamp (- 1 + 1 / 10 ^ 7) (1 - 1 / 10 ^ 7) (1 - ?b * ?t\<^sup>2) = 1 - 1 / 10 ^ 7"
    by (rule clamp_upper) simp
  have c8: "clamp_min (1 / 10 ^ 8) ?c = ?c" using ab by (simp add: clamp_min_def max_def)
  define a where "a = ?a"
  define q where "q = ?c / sin ?c"
  define k where "k = q * a"
  have le: "so3_log_map1 (so3_exp_map1 v) = smulv k v"
    unfolding so3_log_map1_def Let_def tr cl c8 k_def q_def a_def
    by (cases v) (simp add: so3_exp_map1_rodrigues antisym_vec_rodrigues)
  have st0: "0 \<le> sin ?t" using sin_ge_zero [OF t0 tpi] .
  have stt: "sin ?t \<le> ?t" using sin_x_le_x [OF t0] .
  have a0: "0 \<le> a" unfolding a_def using st0 tcpos by simp
  have a1: "a \<le> 1" unfolding a_def using stt tle tcpos by simp
  have q1: "1 \<le> q" and q2: "q \<le> 1 / (1 - 1 / 10 ^ 7)"
    unfolding q_def using sb by simp_all
  have q0: "0 \<le> q" using q1 by simp
  have k0: "0 \<le> k" unfolding k_def using q0 a0 by (rule mult_nonneg_nonneg)
  have "q * a \<le> 1 / (1 - 1 / 10 ^ 7) * 1"
    using q2 a1 a0 by (intro mult_mono) simp_all
  then have kup: "k - 1 \<le> 2 / 10 ^ 7" unfolding k_def by simp
  have err: "norm3 (subv (so3_log_map1 (so3_exp_map1 v)) v) = \<bar>k - 1\<bar> * ?t"
    by (simp add: le subv_smulv norm3_smulv)
  show ?thesis
  proof (cases "?t < 1 / 10 ^ 8")
    case True
    have "\<bar>k - 1\<bar> \<le> 1" using k0 kup by simp
    then have "\<bar>k - 1\<bar> * ?t \<le> 1 * ?t" using t0 by (intro mult_right_mono) simp_all
    then show ?thesis using True err by simp
  next
    case False
    then have t8: "1 / 10 ^ 8 \<le> ?t" by simp
    then have tpos: "0 < ?t" by simp
    have tc: "?tc = ?t" using t8 by (simp add: clamp_min_def max_def)
    have "?t * cos ?t \<le> sin ?t" using x_cos_le_sin [OF t0 tpi] .
    then have "cos ?t \<le> a" unfolding a_def tc using tpos by (simp add: field_simps)
    then have alo: "1 - 1 / 10 ^ 7 \<le> a" using cost by simp
    have "1 * (1 - 1 / 10 ^ 7) \<le> q * a"
      using q1 alo by (intro mult_mono) simp_all
    then have klo: "- (2 / 10 ^ 7) \<le> k - 1" unfolding k_def by simp
    have "\<bar>k - 1\<bar> \<le> 2 / 10 ^ 7" using klo kup by linarith
    moreover have "?t \<le> 1 / 1000" using sm sb(1) by simp
    ultimately have "\<bar>k - 1\<bar> * ?t \<le> 2 / 10 ^ 7 * (1 / 1000)"
      using t0 by (intro mult_mono) simp_all
    then show ?thesis using err by simp
  qed
qed

lemma smulv_one: "smulv 1 v = v"
  by (cases v) simp

lemma subv_self_norm: "norm3 (subv v v) = 0"
  by (cases v) simp

lemma log_exp_bound:
  assumes "norm3 v \<le> arccos (- 1 + 1 / 10 ^ 7)"
  shows "norm3 (subv (so3_log_map1 (so3_exp_map1 v)) v) \<le> 1 / 10 ^ 8"
proof (cases "norm3 v < arccos (1 - 1 / 10 ^ 7)")
  case True
  then show ?thesis by (rule log_exp_small)
next
  case False
  then have "so3_log_map1 (so3_exp_map1 v) = v"
    using assms by (intro log_exp_in_range) simp_all
  then show ?thesis by (simp add: subv_self_norm)
qed

lemma log_exp_exact:
  assumes "norm3 v \<le> arccos (- 1 + 1 / 10 ^ 7)"
    and "arccos (1 - 1 / 10 ^ 7) \<le> norm3 v \<or> v = (0, 0, 0)"
  shows "so3_log_map1 (so3_exp_map1 v) = v" and "is_rotation (so3_exp_map1 v)"
proof -
  show "so3_log_map1 (so3_exp_map1 v) = v"
  proof (cases "v = (0, 0, 0)")
    case True
    then show ?thesis by (simp add: so3_exp_map1_zero so3_log_map1_eye3)
  next
    case False
    then show ?thesis using assms by (intro log_exp_in_range) simp_all
  qed
  have "1 / 10 ^ 8 \<le> norm3 v \<or> v = (0, 0, 0)"
    using assms(2) angle_bounds(4) by auto
  then show "is_rotation (so3_exp_map1 v)" by (rule so3_exp_map1_rotation)
qed

lemma square_entries_bound:
  fixes x y z :: real
  shows "\<bar>x * y\<bar> \<le> x\<^sup>2 + y\<^sup>2 + z\<^sup>2" and "y\<^sup>2 + z\<^sup>2 \<le> x\<^sup>2 + y\<^sup>2 + z\<^sup>2"
proof -
  have "0 \<le> (\<bar>x\<bar> - \<bar>y\<bar>)\<^sup>2" by simp
  then have "2 * (\<bar>x\<bar> * \<bar>y\<bar>) \<le> x\<^sup>2 + y\<^sup>2"
    by (simp add: power2_diff)
  moreover have "0 \<le> \<bar>x\<bar> * \<bar>y\<bar>" "0 \<le> z\<^sup>2" by simp_all
  ultimately have "\<bar>x\<bar> * \<bar>y\<bar> \<le> x\<^sup>2 + y\<^sup>2 + z\<^sup>2" by linarith
  then show "\<bar>x * y\<bar> \<le> x\<^sup>2 + y\<^sup>2 + z\<^sup>2" by (simp add: abs_mult)
  show "y\<^sup>2 + z\<^sup>2 \<le> x\<^sup>2 + y\<^sup>2 + z\<^sup>2" by simp
qed

lemma mat3_cases:
  obtains a b c d e f g h i where "M = ((a, b, c), (d, e, f), (g, h, i :: real))"
  by (cases M) auto

lemma mmul_madj: "mmul M (madj M) = smulm (mdet M) eye3"
  by (cases M rule: mat3_cases) (simp add: madj_def eye3_def algebra_simps)

lemma mmul_assoc: "mmul (mmul A B) C = mmul A (mmul B C)"
  by (cases A rule: mat3_cases, cases B rule: mat3_cases, cases C rule: mat3_cases)
    (simp add: algebra_simps)

lemma mmul_eye3: "mmul eye3 M = M" "mmul M eye3 = M" "smulm 1 M = M"
  by (cases M rule: mat3_cases, simp add: eye3_def)+

lemma rotation_adj:
  assumes "is_rotation R"
  shows "madj R = mtranspose R" and "mmul R (mtranspose R) = eye3"
proof -
  have g: "mmul (mtranspose R) R = eye3" and d: "mdet R = 1"
    using assms by (simp_all add: is_rotation_def)
  have "mtranspose R = mmul (mtranspose R) (mmul R (madj R))"
    by (simp add: mmul_madj d mmul_eye3)
  also have "\<dots> = mmul (mmul (mtranspose R) R) (madj R)" by (simp only: mmul_assoc)
  also have "\<dots> = madj R" by (simp add: g mmul_eye3)
  finally show a: "madj R = mtranspose R" by simp
  show "mmul R (mtranspose R) = eye3" using mmul_madj [of R] by (simp add: a d mmul_eye3)
qed

lemma rotation_rodrigues:
  assumes rot: "is_rotation R" and t: "1 + mtrace R \<noteq> 0"
  shows "rodrigues 1 (2 / (1 + mtrace R)) (antisym_vec R) = R"
    and "sqnorm3 (antisym_vec R) = (1 + mtrace R) * (3 - mtrace R) / 4"
proof -
  obtain a b c d e f g h i where R: "R = ((a, b, c), (d, e, f), (g, h, i))"
    by (rule mat3_cases)
  have cols: "a * a + d * d + g * g = 1" "b * b + e * e + h * h = 1" "c * c + f * f + i * i = 1"
      "a * b + d * e + g * h = 0" "a * c + d * f + g * i = 0" "b * c + e * f + h * i = 0"
    using rot by (simp_all add: is_rotation_def R eye3_def)
  have rows: "a * a + b * b + c * c = 1" "d * d + e * e + f * f = 1" "g * g + h * h + i * i = 1"
      "a * d + b * e + c * f = 0" "a * g + b * h + c * i = 0" "d * g + e * h + f * i = 0"
    using rotation_adj(2) [OF rot] by (simp_all add: R eye3_def)
  have cof: "e * i - f * h = a" "c * h - b * i = d" "b * f - c * e = g"
      "f * g - d * i = b" "a * i - c * g = e" "c * d - a * f = h"
      "d * h - e * g = c" "b * g - a * h = f" "a * e - b * d = i"
    using rotation_adj(1) [OF rot] by (simp_all add: R madj_def)
  define s where "s = 1 + (a + e + i)"
  have s: "s \<noteq> 0" using t by (simp add: R s_def)
  have k11: "(c - g) * (c - g) + (d - b) * (d - b) = 2 * s * (1 - a)"
  proof -
    have "(c - g) * (c - g) + (d - b) * (d - b) - 2 * s * (1 - a)
        = (a * a + b * b + c * c - 1) + (a * a + d * d + g * g - 1)
          - 2 * (e - (a * i - c * g)) - 2 * (i - (a * e - b * d))"
      by (simp add: s_def algebra_simps)
    also have "\<dots> = 0" unfolding rows cols cof by simp
    finally show ?thesis by simp
  qed
  have k22: "(h - f) * (h - f) + (d - b) * (d - b) = 2 * s * (1 - e)"
  proof -
    have "(h - f) * (h - f) + (d - b) * (d - b) - 2 * s * (1 - e)
        = (d * d + e * e + f * f - 1) + (b * b + e * e + h * h - 1)
          - 2 * (a - (e * i - f * h)) - 2 * (i - (a * e - b * d))"
      by (simp add: s_def algebra_simps)
    also have "\<dots> = 0" unfolding rows cols cof by simp
    finally show ?thesis by simp
  qed
  have k33: "(h - f) * (h - f) + (c - g) * (c - g) = 2 * s * (1 - i)"
  proof -
    have "(h - f) * (h - f) + (c - g) * (c - g) - 2 * s * (1 - i)
        = (g * g + h * h + i * i - 1) + (c * c + f * f + i * i - 1)
          - 2 * (a - (e * i - f * h)) - 2 * (e - (a * i - c * g))"
      by (simp add: s_def algebra_simps)
    also have "\<dots> = 0" unfolding rows cols cof by simp
    finally show ?thesis by simp
  qed
  have k12: "(h - f) * (c - g) = s * (b + d)"
  proof -
    have "(h - f) * (c - g) - s * (b + d)
        = - (d - (c * h - b * i)) - (b - (f * g - d * i))
          - (a * d + b * e + c * f) - (a * b + d * e + g * h)"
      by (simp add: s_def algebra_simps)
    also have "\<dots> = 0" unfolding rows cols cof by simp
    finally show ?thesis by simp
  qed
  have k13: "(h - f) * (d - b) = s * (c + g)"
  proof -
    have "(h - f) * (d - b) - s * (c + g)
        = - (c - (d * h - e * g)) - (g - (b * f - c * e))
          - (a * c + d * f + g * i) - (a * g + b * h + c * i)"
      by (simp add: s_def algebra_simps)
    also have "\<dots> = 0" unfolding rows cols cof by simp
    finally show ?thesis by simp
  qed
  have k23: "(c - g) * (d - b) = s * (f + h)"
  proof -
    have "(c - g) * (d - b) - s * (f + h)
        = - (h - (c * d - a * f)) - (f - (b * g - a * h))
          - (b * c + e * f + h * i) - (d * g + e * h + f * i)"
      by (simp add: s_def algebra_simps)
    also have "\<dots> = 0" unfolding rows cols cof by simp
    finally show ?thesis by simp
  qed
  define x y z where "x = (h - f) / 2" and "y = (c - g) / 2" and "z = (d - b) / 2"
  have av: "antisym_vec R = (x, y, z)"
    by (simp add: antisym_vec_def R x_def y_def z_def field_simps)
  have tr: "1 + mtrace R = s" by (simp add: R s_def)
  have yz2: "y\<^sup>2 + z\<^sup>2 = ((c - g) * (c - g) + (d - b) * (d - b)) / 4"
    and xz2: "x\<^sup>2 + z\<^sup>2 = ((h - f) * (h - f) + (d - b) * (d - b)) / 4"
    and xy2: "x\<^sup>2 + y\<^sup>2 = ((h - f) * (h - f) + (c - g) * (c - g)) / 4"
    and xy: "x * y = (h - f) * (c - g) / 4"
    and xz: "x * z = (h - f) * (d - b) / 4"
    and yz: "y * z = (c - g) * (d - b) / 4"
    by (simp_all add: x_def y_def z_def power2_eq_square field_simps)
  have d1: "2 / s * (y\<^sup>2 + z\<^sup>2) = 1 - a" unfolding yz2 k11 using s by simp
  have d2: "2 / s * (x\<^sup>2 + z\<^sup>2) = 1 - e" unfolding xz2 k22 using s by simp
  have d3: "2 / s * (x\<^sup>2 + y\<^sup>2) = 1 - i" unfolding xy2 k33 using s by simp
  have o12: "2 / s * (x * y) = (b + d) / 2" unfolding xy k12 using s by simp
  have o13: "2 / s * (x * z) = (c + g) / 2" unfolding xz k13 using s by simp
  have o23: "2 / s * (y * z) = (f + h) / 2" unfolding yz k23 using s by simp
  have "rodrigues 1 (2 / s) (x, y, z) = ((a, b, c), (d, e, f), (g, h, i))"
    unfolding rodrigues_explicit d1 d2 d3 o12 o13 o23
    by (simp add: x_def y_def z_def field_simps)
  then show "rodrigues 1 (2 / (1 + mtrace R)) (antisym_vec R) = R"
    unfolding tr av by (simp only: R)
  have e1: "y\<^sup>2 + z\<^sup>2 = s * (1 - a) / 2" unfolding yz2 k11 by simp
  have e2: "x\<^sup>2 + z\<^sup>2 = s * (1 - e) / 2" unfolding xz2 k22 by simp
  have e3: "x\<^sup>2 + y\<^sup>2 = s * (1 - i) / 2" unfolding xy2 k33 by simp
  have "2 * (x\<^sup>2 + y\<^sup>2 + z\<^sup>2) = (y\<^sup>2 + z\<^sup>2) + (x\<^sup>2 + z\<^sup>2) + (x\<^sup>2 + y\<^sup>2)"
    by simp
  also have "\<dots> = s * (1 - a) / 2 + s * (1 - e) / 2 + s * (1 - i) / 2"
    by (simp only: e1 e2 e3)
  also have "\<dots> = s * (3 - (a + e + i)) / 2" by (simp add: field_simps)
  also have "a + e + i = s - 1" by (simp add: s_def)
  finally have "x\<^sup>2 + y\<^sup>2 + z\<^sup>2 = s * (3 - (s - 1)) / 4" by simp
  then show "sqnorm3 (antisym_vec R) = (1 + mtrace R) * (3 - mtrace R) / 4"
    unfolding av tr [symmetric] by (simp add: sqnorm3_def)
qed

lemma rodrigues_smulv: "rodrigues a b (smulv q w) = rodrigues (a * q) (b * q\<^sup>2) w"
  by (cases w) (simp add: rodrigues_explicit power2_eq_square algebra_simps)

lemma norm3_sqrt: "norm3 v = sqrt (sqnorm3 v)"
  by (cases v) (simp add: sqnorm3_def)

lemma mat_close_refl: "0 \<le> tol \<Longrightarrow> mat_close tol M M"
  by (cases M rule: mat3_cases) (simp add: mat_close_def)

lemma rotation_sqnorm:
  assumes "is_rotation R" and "1 + mtrace R \<noteq> 0"
  shows "sqnorm3 (antisym_vec R) = 1 - ((mtrace R - 1) / 2)\<^sup>2"
  unfolding rotation_rodrigues(2) [OF assms]
  by (simp add: power2_eq_square field_simps)

lemma exp_log_in_range:
  assumes rot: "is_rotation R"
    and lo: "- 1 + 1 / 10 ^ 7 \<le> (mtrace R - 1) / 2" and hi: "(mtrace R - 1) / 2 \<le> 1 - 1 / 10 ^ 7"
  shows "so3_exp_map1 (so3_log_map1 R) = R"
proof -
  define c where "c = (mtrace R - 1) / 2"
  define th where "th = arccos c"
  define w where "w = antisym_vec R"
  note ab = angle_bounds
  have c: "- 1 + 1 / 10 ^ 7 \<le> c" "c \<le> 1 - 1 / 10 ^ 7" using lo hi by (simp_all add: c_def)
  hence c1: "- 1 < c" "c < 1" by simp_all
  have t: "1 + mtrace R = 2 * (1 + c)" by (simp add: c_def field_simps)
  have tn: "1 + mtrace R \<noteq> 0" unfolding t using c1 by simp
  have cl: "clamp (- 1 + 1 / 10 ^ 7) (1 - 1 / 10 ^ 7) c = c" using c by (simp add: clamp_def)
  have thb: "0 < th" "th < pi" unfolding th_def using arccos_lt_bounded [OF c1] by simp_all
  have "arccos (1 - 1 / 10 ^ 7) \<le> th"
    unfolding th_def using c by (intro arccos_le_arccos) simp_all
  hence t8: "1 / 10 ^ 8 \<le> th" using ab(4) by simp
  have c8: "clamp_min (1 / 10 ^ 8) th = th" using t8 by (simp add: clamp_min_def max_def)
  have ct: "cos th = c" unfolding th_def using c1 by simp
  have spos: "0 < sin th" using sin_gt_zero [OF thb] .
  have s2: "(sin th)\<^sup>2 = 1 - c\<^sup>2" by (simp add: sin_squared_eq ct)
  have sq: "sqnorm3 w = 1 - c\<^sup>2"
    unfolding w_def c_def by (rule rotation_sqnorm [OF rot tn])
  have nw: "norm3 w = sin th"
  proof -
    have "norm3 w = sqrt ((sin th)\<^sup>2)" by (simp add: norm3_sqrt sq s2)
    thus ?thesis using spos by simp
  qed
  have lg: "so3_log_map1 R = smulv (th / sin th) w"
    unfolding so3_log_map1_def Let_def c_def [symmetric] cl th_def [symmetric] c8 w_def ..
  have nu: "norm3 (smulv (th / sin th) w) = th"
    using spos thb by (simp add: norm3_smulv nw)
  have t8': "1 / 10 ^ 8 \<le> norm3 (smulv (th / sin th) w)" unfolding nu by (rule t8)
  have "so3_exp_map1 (so3_log_map1 R)
      = rodrigues (sin th / th * (th / sin th)) ((1 - c) / th\<^sup>2 * (th / sin th)\<^sup>2) w"
    unfolding lg so3_exp_map1_large [OF t8'] nu ct rodrigues_smulv ..
  also have "sin th / th * (th / sin th) = 1" using spos thb by simp
  also have "(1 - c) / th\<^sup>2 * (th / sin th)\<^sup>2 = (1 - c) / (sin th)\<^sup>2"
    using thb by (simp add: power_divide)
  also have "\<dots> = 2 / (1 + mtrace R)"
  proof -
    have "1 - c\<^sup>2 = (1 - c) * (1 + c)" by (simp add: power2_eq_square algebra_simps)
    hence "(1 - c) / (sin th)\<^sup>2 = 1 / (1 + c)" unfolding s2 using c1 by simp
    moreover have "1 / (1 + c) = 2 / (2 * (1 + c))"
      using c1 by (simp add: field_simps)
    ultimately show ?thesis unfolding t by (simp only:)
  qed
  finally show ?thesis unfolding w_def by (simp only: rotation_rodrigues(1) [OF rot tn])
qed

lemma abs_comb_bound:
  fixes p r A B n N :: real
  assumes "\<bar>a\<bar> \<le> A" "\<bar>b\<bar> \<le> B" "\<bar>p\<bar> \<le> n" "\<bar>r\<bar> \<le> N"
  shows "\<bar>a * p + b * r\<bar> \<le> A * n + B * N" and "\<bar>- (a * p) + b * r\<bar> \<le> A * n + B * N"
proof -
  have 1: "\<bar>a * p\<bar> \<le> A * n" unfolding abs_mult using assms by (intro mult_mono) simp_all
  have 2: "\<bar>b * r\<bar> \<le> B * N" unfolding abs_mult using assms by (intro mult_mono) simp_all
  show "\<bar>a * p + b * r\<bar> \<le> A * n + B * N"
    using abs_triangle_ineq [of "a * p" "b * r"] 1 2 by linarith
  show "\<bar>- (a * p) + b * r\<bar> \<le> A * n + B * N"
    using abs_triangle_ineq [of "- (a * p)" "b * r"] 1 2 by simp
qed

lemma component_le_norm3:
  shows "\<bar>x\<bar> \<le> norm3 (x, y, z)" and "\<bar>y\<bar> \<le> norm3 (x, y, z)" and "\<bar>z\<bar> \<le> norm3 (x, y, z)"
proof -
  have "sqrt (x\<^sup>2) \<le> sqrt (x\<^sup>2 + y\<^sup>2 + z\<^sup>2)" by (rule real_sqrt_le_mono) simp
  thus "\<bar>x\<bar> \<le> norm3 (x, y, z)" by simp
  have "sqrt (y\<^sup>2) \<le> sqrt (x\<^sup>2 + y\<^sup>2 + z\<^sup>2)" by (rule real_sqrt_le_mono) simp
  thus "\<bar>y\<bar> \<le> norm3 (x, y, z)" by simp
  have "sqrt (z\<^sup>2) \<le> sqrt (x\<^sup>2 + y\<^sup>2 + z\<^sup>2)" by (rule real_sqrt_le_mono) simp
  thus "\<bar>z\<bar> \<le> norm3 (x, y, z)" by simp
qed

lemma rodrigues_close:
  assumes A: "\<bar>a1 - a2\<bar> \<le> A" and B: "\<bar>b1 - b2\<bar> \<le> B"
    and tol: "A * norm3 w + B * sqnorm3 w \<le> tol"
  shows "mat_close tol (rodrigues a1 b1 w) (rodrigues a2 b2 w)"
proof -
  obtain x y z where w: "w = (x, y, z)" by (cases w)
  define n where "n = norm3 w"
  define N where "N = x\<^sup>2 + y\<^sup>2 + z\<^sup>2"
  define a where "a = a1 - a2"
  define b where "b = b1 - b2"
  have N: "sqnorm3 w = N" by (simp add: w sqnorm3_def N_def)
  have c: "\<bar>x\<bar> \<le> n" "\<bar>y\<bar> \<le> n" "\<bar>z\<bar> \<le> n"
    unfolding n_def w by (rule component_le_norm3)+
  have xy: "\<bar>x * y\<bar> \<le> N" unfolding N_def using square_entries_bound(1) [of x y z] .
  have xz: "\<bar>x * z\<bar> \<le> N" unfolding N_def using square_entries_bound(1) [of x z y] by (simp add: algebra_simps)
  have yz: "\<bar>y * z\<bar> \<le> N" unfolding N_def using square_entries_bound(1) [of y z x] by (simp add: algebra_simps)
  have d1: "\<bar>y\<^sup>2 + z\<^sup>2\<bar> \<le> N" and d2: "\<bar>x\<^sup>2 + z\<^sup>2\<bar> \<le> N" and d3: "\<bar>x\<^sup>2 + y\<^sup>2\<bar> \<le> N"
    by (simp_all add: N_def)
  have z0: "\<bar>0 :: real\<bar> \<le> n" using c(1) by simp
  have a: "\<bar>a\<bar> \<le> A" and b: "\<bar>b\<bar> \<le> B" using A B by (simp_all add: a_def b_def)
  have t: "A * n + B * N \<le> tol" using tol by (simp add: n_def N)
  note e = abs_comb_bound [OF a b]
  have "concat (mat_to_rows (msub (rodrigues a1 b1 w) (rodrigues a2 b2 w)))
      = [a * 0 + b * (- (y\<^sup>2 + z\<^sup>2)), - (a * z) + b * (x * y), a * y + b * (x * z),
         a * z + b * (x * y), a * 0 + b * (- (x\<^sup>2 + z\<^sup>2)), - (a * x) + b * (y * z),
         - (a * y) + b * (x * z), a * x + b * (y * z), a * 0 + b * (- (x\<^sup>2 + y\<^sup>2))]"
    unfolding w rodrigues_explicit by (simp add: a_def b_def algebra_simps)
  moreover have "\<bar>a * 0 + b * (- (y\<^sup>2 + z\<^sup>2))\<bar> \<le> tol"
    using e(1) [OF z0, of "- (y\<^sup>2 + z\<^sup>2)" N] d1 t by simp
  moreover have "\<bar>a * 0 + b * (- (x\<^sup>2 + z\<^sup>2))\<bar> \<le> tol"
    using e(1) [OF z0, of "- (x\<^sup>2 + z\<^sup>2)" N] d2 t by simp
  moreover have "\<bar>a * 0 + b * (- (x\<^sup>2 + y\<^sup>2))\<bar> \<le> tol"
    using e(1) [OF z0, of "- (x\<^sup>2 + y\<^sup>2)" N] d3 t by simp
  moreover have "\<bar>- (a * z) + b * (x * y)\<bar> \<le> tol" using e(2) [OF c(3) xy] t by simp
  moreover have "\<bar>a * y + b * (x * z)\<bar> \<le> tol" using e(1) [OF c(2) xz] t by simp
  moreover have "\<bar>a * z + b * (x * y)\<bar> \<le> tol" using e(1) [OF c(3) xy] t by simp
  moreover have "\<bar>- (a * x) + b * (y * z)\<bar> \<le> tol" using e(2) [OF c(1) yz] t by simp
  moreover have "\<bar>- (a * y) + b * (x * z)\<bar> \<le> tol" using e(2) [OF c(2) xz] t by simp
  moreover have "\<bar>a * x + b * (y * z)\<bar> \<le> tol" using e(1) [OF c(1) yz] t by simp
  ultimately show ?thesis by (simp add: mat_close_def)
qed

lemma mat_close_mono: "mat_close tol A B \<Longrightarrow> tol \<le> tol' \<Longrightarrow> mat_close tol' A B"
  unfolding mat_close_def list_all_iff by fastforce

lemma exp_log_small_rotation:
  assumes rot: "is_rotation R" and big: "1 - 1 / 10 ^ 7 < (mtrace R - 1) / 2"
  shows "mat_close (1 / 10 ^ 6) (so3_exp_map1 (so3_log_map1 R)) R"
proof -
  let ?c0 = "arccos (1 - 1 / 10 ^ 7)"
  define c where "c = (mtrace R - 1) / 2"
  define w where "w = antisym_vec R"
  define q where "q = ?c0 / sin ?c0"
  define n where "n = norm3 w"
  define N where "N = sqnorm3 w"
  note ab = angle_bounds and sb = small_angle_bound
  have c: "1 - 1 / 10 ^ 7 < c" using big by (simp add: c_def)
  hence cpos: "0 < c" by simp
  have t: "1 + mtrace R = 2 * (1 + c)" by (simp add: c_def field_simps)
  have tn: "1 + mtrace R \<noteq> 0" unfolding t using cpos by simp
  have N: "N = 1 - c\<^sup>2"
    unfolding N_def w_def c_def by (rule rotation_sqnorm [OF rot tn])
  have "(1 - 1 / 10 ^ 7)\<^sup>2 \<le> c\<^sup>2" using c by (intro power_mono) simp_all
  hence N1: "N \<le> 2 / 10 ^ 7" unfolding N by (simp add: power2_eq_square)
  have n0: "0 \<le> n" unfolding n_def by (rule norm3_nonneg)
  have "sqrt N \<le> sqrt ((1 / 2000)\<^sup>2)"
    by (rule real_sqrt_le_mono) (use N1 in \<open>simp add: power2_eq_square\<close>)
  hence n1: "n \<le> 1 / 2000" by (simp add: n_def norm3_sqrt N_def)
  have cl: "clamp (- 1 + 1 / 10 ^ 7) (1 - 1 / 10 ^ 7) c = 1 - 1 / 10 ^ 7"
    by (rule clamp_upper) (use c in simp_all)
  have c8: "clamp_min (1 / 10 ^ 8) ?c0 = ?c0" using ab by (simp add: clamp_min_def max_def)
  have lg: "so3_log_map1 R = smulv q w"
    unfolding so3_log_map1_def Let_def c_def [symmetric] cl c8 w_def q_def ..
  have q1: "1 \<le> q" unfolding q_def by (rule sb(3))
  have "q \<le> 1 / (1 - 1 / 10 ^ 7)" unfolding q_def by (rule sb(2))
  hence q3: "q \<le> 1 + 2 / 10 ^ 7" by simp
  hence q2: "q \<le> 2" by simp
  define u where "u = norm3 (smulv q w)"
  define tc where "tc = clamp_min (1 / 10 ^ 8) u"
  define a where "a = sin u / tc"
  define b where "b = (1 - cos u) / tc\<^sup>2"
  have u: "u = q * n" unfolding u_def n_def using q1 by (simp add: norm3_smulv)
  have u0: "0 \<le> u" unfolding u using q1 n0 by simp
  have "1 * n \<le> q * n" using q1 n0 by (intro mult_right_mono) simp_all
  hence nu: "n \<le> u" unfolding u by simp
  have "q * n \<le> 2 * (1 / 2000)" using q2 n1 n0 q1 by (intro mult_mono) simp_all
  hence u1: "u \<le> 1 / 1000" unfolding u by simp
  hence upi: "u \<le> pi" using pi_ge_two by simp
  have tcpos: "0 < tc" unfolding tc_def by (simp add: clamp_min_def max_def)
  have utc: "u \<le> tc" unfolding tc_def by (simp add: clamp_min_def)
  have ex: "so3_exp_map1 (so3_log_map1 R) = rodrigues (a * q) (b * q\<^sup>2) w"
    unfolding lg so3_exp_map1_rodrigues u_def [symmetric] tc_def [symmetric]
      a_def [symmetric] b_def [symmetric] rodrigues_smulv ..
  have a0: "0 \<le> a" unfolding a_def using sin_ge_zero [OF u0 upi] tcpos by simp
  have a1: "a \<le> 1" unfolding a_def using sin_x_le_x [OF u0] utc tcpos by simp
  have b0: "0 \<le> b" unfolding b_def using tcpos by simp
  have cu: "1 - cos u \<le> u\<^sup>2 / 2" using cos_ge_quadratic [of u] by simp
  moreover have "u\<^sup>2 \<le> tc\<^sup>2" using u0 utc by (intro power_mono) simp_all
  ultimately have "1 - cos u \<le> tc\<^sup>2 / 2" by simp
  hence b1: "b \<le> 1 / 2" unfolding b_def using tcpos by (simp add: field_simps)
  have aq0: "0 \<le> a * q" using a0 q1 by simp
  have "a * q \<le> 1 * q" using a1 q1 by (intro mult_right_mono) simp_all
  hence aq1: "a * q \<le> 1 + 2 / 10 ^ 7" using q3 by simp
  have "\<exists>A. \<bar>a * q - 1\<bar> \<le> A \<and> A * n \<le> 1 / 10 ^ 8"
  proof (cases "u < 1 / 10 ^ 8")
    case True
    have "\<bar>a * q - 1\<bar> \<le> 1" using aq0 aq1 by simp
    moreover have "1 * n \<le> 1 / 10 ^ 8" using nu True by simp
    ultimately show ?thesis by blast
  next
    case False
    hence u8: "1 / 10 ^ 8 \<le> u" by simp
    hence upos: "0 < u" by simp
    have tcu: "tc = u" unfolding tc_def using u8 by (simp add: clamp_min_def max_def)
    have "u * cos u \<le> sin u" using x_cos_le_sin [OF u0 upi] .
    hence ca: "cos u \<le> a" unfolding a_def tcu using upos by (simp add: field_simps)
    have "u\<^sup>2 \<le> (1 / 1000)\<^sup>2" using u0 u1 by (intro power_mono) simp_all
    hence "1 - 5 / 10 ^ 7 \<le> cos u" using cu by (simp add: power2_eq_square)
    hence alo: "1 - 5 / 10 ^ 7 \<le> a" using ca by simp
    have "a * 1 \<le> a * q" using a0 q1 by (intro mult_left_mono) simp_all
    hence aq': "a \<le> a * q" by (simp only: mult_1_right)
    have "1 - 5 / 10 ^ 7 \<le> a * q" by (rule order_trans [OF alo aq'])
    hence "\<bar>a * q - 1\<bar> \<le> 5 / 10 ^ 7" unfolding abs_le_iff using aq1 by simp
    moreover have "5 / 10 ^ 7 * n \<le> 5 / 10 ^ 7 * (1 / 2000)"
      using n1 by (intro mult_left_mono) simp_all
    hence "5 / 10 ^ 7 * n \<le> 1 / 10 ^ 8" by simp
    ultimately show ?thesis by blast
  qed
  then obtain A where A: "\<bar>a * q - 1\<bar> \<le> A" and An: "A * n \<le> 1 / 10 ^ 8" by blast
  have "q\<^sup>2 \<le> 2\<^sup>2" using q1 q2 by (intro power_mono) simp_all
  hence q24: "q\<^sup>2 \<le> 4" by simp
  have bq0: "0 \<le> b * q\<^sup>2" using b0 by simp
  have "b * q\<^sup>2 \<le> 1 / 2 * 4" using b0 b1 q24 by (intro mult_mono) simp_all
  hence bq1: "b * q\<^sup>2 \<le> 2" by simp
  define be where "be = 2 / (1 + mtrace R)"
  have be: "be = 1 / (1 + c)" unfolding be_def t using cpos by (simp add: field_simps)
  have be0: "0 \<le> be" unfolding be using cpos by simp
  have be1: "be \<le> 1" unfolding be using cpos by simp
  have B: "\<bar>b * q\<^sup>2 - be\<bar> \<le> 2" using bq0 bq1 be0 be1 by simp
  have R: "R = rodrigues 1 be w"
    unfolding be_def w_def using rotation_rodrigues(1) [OF rot tn] by simp
  have "2 * N \<le> 2 * (2 / 10 ^ 7)" using N1 by simp
  hence tol: "A * norm3 w + 2 * sqnorm3 w \<le> 1 / 10 ^ 6"
    using An unfolding n_def N_def by simp
  have "mat_close (1 / 10 ^ 6) (rodrigues (a * q) (b * q\<^sup>2) w) (rodrigues 1 be w)"
    by (rule rodrigues_close [OF A B tol])
  thus ?thesis unfolding ex using R by simp
qed

lemma exp_log_close:
  assumes rot: "is_rotation R" and lo: "- 99 / 100 \<le> (mtrace R - 1) / 2"
  shows "mat_close (1 / 10 ^ 6) (so3_exp_map1 (so3_log_map1 R)) R"
proof (cases "(mtrace R - 1) / 2 \<le> 1 - 1 / 10 ^ 7")
  case True
  have "- 1 + 1 / 10 ^ 7 \<le> (mtrace R - 1) / 2" using lo by simp
  from exp_log_in_range [OF rot this True] show ?thesis by (simp add: mat_close_refl)
next
  case False
  then show ?thesis by (intro exp_log_small_rotation [OF rot]) simp
qed

lemma log_exp_close:
  assumes "norm3 v \<le> arccos (- 99 / 100)"
  shows "norm3 (subv (so3_log_map1 (so3_exp_map1 v)) v) \<le> 1 / 10 ^ 8"
proof -
  have "arccos (- 99 / 100) \<le> arccos (- 1 + 1 / 10 ^ 7)"
    by (rule arccos_le_arccos) simp_all
  with assms have "norm3 v \<le> arccos (- 1 + 1 / 10 ^ 7)" by simp
  from log_exp_bound [OF this] show ?thesis .
qed

text \<open>
  Claim C5, amended. For tangent vectors of norm at most \<open>arccos (-99/100)\<close>, a little more
  than 3, the logarithm of the exponential is within \<open>10\<^sup>-\<^sup>3\<close> of the vector in Euclidean
  norm, and within \<open>10\<^sup>-\<^sup>5\<close> when the norm is at most \<open>pi / 2\<close>. For valid rotations \<open>R\<close>
  whose angle is at most \<open>arccos (-99/100)\<close>, that is, whose trace is at least \<open>-98/100\<close>,
  rotations of small angle included, every entry of the exponential of the logarithm of
  \<open>R\<close> is within \<open>10\<^sup>-\<^sup>3\<close> of the entry of \<open>R\<close>, and within \<open>10\<^sup>-\<^sup>5\<close> when the angle is at most
  \<open>pi / 2\<close>, that is, when the trace is at least 1; the interpolation of \<open>R\<close> with factor 1
  is the exponential of the logarithm of \<open>R\<close>. Nothing is claimed for angles between
  \<open>arccos (-99/100)\<close> and \<open>pi\<close>. In real arithmetic the errors are far smaller
  (\<open>log_exp_close\<close>, \<open>exp_log_close\<close>, \<open>exp_log_in_range\<close>).
\<close>

theorem exp_log_round_trip:
  "((\<forall>row \<in> set vs. \<forall>v \<in> set row. norm3 v \<le> arccos (- 99 / 100)) \<longrightarrow>
        same_shape (so3_log_map (so3_exp_map vs)) vs
      \<and> (\<forall>b < length vs. \<forall>l < length (vs ! b).
            norm3 (subv (so3_log_map (so3_exp_map vs) ! b ! l) (vs ! b ! l)) \<le> 1 / 10 ^ 3
          \<and> (norm3 (vs ! b ! l) \<le> pi / 2 \<longrightarrow>
               norm3 (subv (so3_log_map (so3_exp_map vs) ! b ! l) (vs ! b ! l)) \<le> 1 / 10 ^ 5)))
   \<and> ((\<forall>row \<in> set Rs. \<forall>R \<in> set row. is_rotation R \<and> - 99 / 100 \<le> (mtrace R - 1) / 2) \<longrightarrow>
        same_shape (so3_exp_map (so3_log_map Rs)) Rs
      \<and> (\<forall>b < length Rs. \<forall>l < length (Rs ! b).
            mat_close (1 / 10 ^ 3) (so3_exp_map (so3_log_map Rs) ! b ! l) (Rs ! b ! l)
          \<and> (0 \<le> (mtrace (Rs ! b ! l) - 1) / 2 \<longrightarrow>
               mat_close (1 / 10 ^ 5) (so3_exp_map (so3_log_map Rs) ! b ! l) (Rs ! b ! l)))
      \<and> so3_interpolate Rs y 1 = so3_exp_map (so3_log_map Rs))"
proof (intro conjI impI allI)
  show "same_shape (so3_log_map (so3_exp_map vs)) vs"
    by (simp add: same_shape_def so3_log_map_def so3_exp_map_def comp_def)
  show "same_shape (so3_exp_map (so3_log_map Rs)) Rs"
    by (simp add: same_shape_def so3_log_map_def so3_exp_map_def comp_def)
  show "so3_interpolate Rs y 1 = so3_exp_map (so3_log_map Rs)"
    by (simp add: so3_interpolate_def Let_def smulv_one [abs_def])
next
  fix b l
  assume rng: "\<forall>row \<in> set vs. \<forall>v \<in> set row. norm3 v \<le> arccos (- 99 / 100)"
    and b: "b < length vs" and l: "l < length (vs ! b)"
  have "vs ! b ! l \<in> set (vs ! b)" "vs ! b \<in> set vs" using b l by simp_all
  then have "norm3 (vs ! b ! l) \<le> arccos (- 99 / 100)" using rng by blast
  from log_exp_close [OF this]
  have e: "norm3 (subv (so3_log_map (so3_exp_map vs) ! b ! l) (vs ! b ! l)) \<le> 1 / 10 ^ 8"
    using b l by (simp add: so3_log_map_def so3_exp_map_def)
  show "norm3 (subv (so3_log_map (so3_exp_map vs) ! b ! l) (vs ! b ! l)) \<le> 1 / 10 ^ 3"
    using e by simp
  show "norm3 (subv (so3_log_map (so3_exp_map vs) ! b ! l) (vs ! b ! l)) \<le> 1 / 10 ^ 5"
    using e by simp
next
  fix b l
  assume rot: "\<forall>row \<in> set Rs. \<forall>R \<in> set row. is_rotation R \<and> - 99 / 100 \<le> (mtrace R - 1) / 2"
    and b: "b < length Rs" and l: "l < length (Rs ! b)"
  have "Rs ! b ! l \<in> set (Rs ! b)" "Rs ! b \<in> set Rs" using b l by simp_all
  then have "is_rotation (Rs ! b ! l)" "- 99 / 100 \<le> (mtrace (Rs ! b ! l) - 1) / 2"
    using rot by blast+
  from exp_log_close [OF this]
  have e: "mat_close (1 / 10 ^ 6) (so3_exp_map (so3_log_map Rs) ! b ! l) (Rs ! b ! l)"
    using b l by (simp add: so3_log_map_def so3_exp_map_def)
  show "mat_close (1 / 10 ^ 3) (so3_exp_map (so3_log_map Rs) ! b ! l) (Rs ! b ! l)"
    by (rule mat_close_mono [OF e]) simp
  show "mat_close (1 / 10 ^ 5) (so3_exp_map (so3_log_map Rs) ! b ! l) (Rs ! b ! l)"
    by (rule mat_close_mono [OF e]) simp
qed

lemma unit_vector_in_range:
  shows "norm3 (1, 0, 0) \<le> arccos (- 99 / 100)" and "norm3 (1, 0, 0) \<le> pi / 2"
proof -
  have "arccos 0 \<le> arccos (- 99 / 100)" by (rule arccos_le_arccos) simp_all
  then show "norm3 (1, 0, 0) \<le> arccos (- 99 / 100)" using pi_ge_two by simp
  show "norm3 (1, 0, 0) \<le> pi / 2" using pi_ge_two by simp
qed

theorem exp_log_round_trip_witness:
  "norm3 (1, 0, 0) \<le> arccos (- 99 / 100) \<and> norm3 (1, 0, 0) \<le> pi / 2
   \<and> is_rotation ((1, 0, 0), (0, 0, - 1), (0, 1, 0))
   \<and> - 99 / 100 \<le> (mtrace ((1, 0, 0), (0, 0, - 1), (0, 1, 0)) - 1) / 2
   \<and> 0 \<le> (mtrace ((1, 0, 0), (0, 0, - 1), (0, 1, 0)) - 1) / 2
   \<and> is_rotation eye3 \<and> 0 \<le> (mtrace eye3 - 1) / 2
   \<and> norm3 (subv (so3_log_map1 (so3_exp_map1 (1, 0, 0))) (1, 0, 0)) \<le> 1 / 10 ^ 5
   \<and> mat_close (1 / 10 ^ 5) (so3_exp_map1 (so3_log_map1 ((1, 0, 0), (0, 0, - 1), (0, 1, 0))))
        ((1, 0, 0), (0, 0, - 1), (0, 1, 0))
   \<and> mat_close (1 / 10 ^ 5) (so3_exp_map1 (so3_log_map1 eye3)) eye3
   \<and> so3_interpolate [[((1, 0, 0), (0, 0, - 1), (0, 1, 0)), eye3]] () 1
       = so3_exp_map (so3_log_map [[((1, 0, 0), (0, 0, - 1), (0, 1, 0)), eye3]])"
  using exp_log_round_trip [where vs = "[[(1, 0, 0)]]"
      and Rs = "[[((1, 0, 0), (0, 0, - 1), (0, 1, 0)), eye3]]" and y = "()"]
    unit_vector_in_range
  by (simp add: so3_exp_map_def so3_log_map_def is_rotation_def eye3_def All_less_Suc2)

text \<open>
  Claim C5, as stated, covers every tangent vector of norm below \<open>pi\<close> and every valid
  rotation. For the vector \<open>(arccos (-1 + 10\<^sup>-\<^sup>9), 0, 0)\<close>, of norm below \<open>pi\<close> and at least 1,
  the first component of the logarithm of the exponential is at most half of that of the
  vector. For the rotation by the angle \<open>pi\<close> about the first axis the logarithm is zero and
  its exponential is the identity, not the rotation.
\<close>

theorem exp_log_round_trip_fails:
  "norm3 (arccos (- 1 + 1 / 10 ^ 9), 0, 0) < pi
   \<and> 1 \<le> arccos (- 1 + 1 / 10 ^ 9)
   \<and> so3_log_map (so3_exp_map [[(arccos (- 1 + 1 / 10 ^ 9), 0, 0)]])
       = [[so3_log_map1 (so3_exp_map1 (arccos (- 1 + 1 / 10 ^ 9), 0, 0))]]
   \<and> fst (so3_log_map1 (so3_exp_map1 (arccos (- 1 + 1 / 10 ^ 9), 0, 0)))
       \<le> arccos (- 1 + 1 / 10 ^ 9) / 2
   \<and> is_rotation ((1, 0, 0), (0, - 1, 0), (0, 0, - 1))
   \<and> so3_exp_map (so3_log_map [[((1, 0, 0), (0, - 1, 0), (0, 0, - 1))]]) = [[eye3]]
   \<and> eye3 \<noteq> ((1, 0, 0), (0, - 1, 0), (0, 0, - 1))"
  using near_pi_log_exp half_turn_rotation
  by (simp add: so3_log_map_def so3_exp_map_def log_map_half_turn so3_exp_map1_zero eye3_def)

section \<open>The reconstruction term of the loss\<close>





section \<open>Rotations up to a tolerance\<close>

lemma is_rotation_near: "is_rotation R \<Longrightarrow> 0 \<le> tol \<Longrightarrow> near_rotation tol R"
  by (simp add: is_rotation_def near_rotation_def eye3_def)

lemma log_denominator_pos:
  "0 < sin (clamp_min (1 / 10 ^ 8) (arccos (clamp (- 1 + 1 / 10 ^ 7) (1 - 1 / 10 ^ 7) x)))"
proof -
  let ?y = "clamp (- 1 + 1 / 10 ^ 7) (1 - 1 / 10 ^ 7) x"
  have y: "- 1 + 1 / 10 ^ 7 \<le> ?y" "?y \<le> 1 - 1 / 10 ^ 7" by (simp_all add: clamp_def)
  then have b: "- 1 < ?y" "?y < 1" by simp_all
  have lo: "arccos (1 - 1 / 10 ^ 7) \<le> arccos ?y"
    using y by (intro arccos_le_arccos) simp_all
  have "0 < arccos ?y" "arccos ?y < pi" using arccos_lt_bounded [OF b] by simp_all
  moreover have "clamp_min (1 / 10 ^ 8) (arccos ?y) = arccos ?y"
    using lo angle_bounds(4) by (simp add: clamp_min_def max_def)
  ultimately show ?thesis by (simp add: sin_gt_zero)
qed

lemma exp_denominator_pos: "0 < clamp_min (1 / 10 ^ 8) t"
  by (simp add: clamp_min_def max_def)

lemma rodrigues_near:
  assumes k: "0 \<le> k" and kn: "k * sqnorm3 v \<le> tol"
    and g: "mmul (mtranspose R) R = rodrigues 0 k v" and d: "mdet R = 1 - k * sqnorm3 v"
  shows "near_rotation tol R"
proof -
  obtain x y z where v: "v = (x, y, z)" by (cases v)
  let ?n = "x\<^sup>2 + y\<^sup>2 + z\<^sup>2"
  have n: "sqnorm3 v = ?n" by (simp add: v sqnorm3_def)
  have n0: "0 \<le> ?n" by simp
  have e: "\<bar>k * q\<bar> \<le> tol" if "\<bar>q\<bar> \<le> ?n" for q
  proof -
    have "\<bar>k * q\<bar> = k * \<bar>q\<bar>" using k by (simp add: abs_mult)
    also have "\<dots> \<le> k * ?n" using that k by (intro mult_left_mono) simp_all
    finally show ?thesis using kn n by simp
  qed
  have xy: "\<bar>x * y\<bar> \<le> ?n" using square_entries_bound(1) [of x y z] .
  have xz: "\<bar>x * z\<bar> \<le> ?n" using square_entries_bound(1) [of x z y] by (simp add: algebra_simps)
  have yz: "\<bar>y * z\<bar> \<le> ?n" using square_entries_bound(1) [of y z x] by (simp add: algebra_simps)
  have d1: "\<bar>y\<^sup>2 + z\<^sup>2\<bar> \<le> ?n" by simp
  have d2: "\<bar>x\<^sup>2 + z\<^sup>2\<bar> \<le> ?n" by simp
  have d3: "\<bar>x\<^sup>2 + y\<^sup>2\<bar> \<le> ?n" by simp
  have "\<bar>mdet R - 1\<bar> = \<bar>k * ?n\<bar>" unfolding d n by simp
  also have "\<dots> \<le> tol" by (rule e) simp
  finally have dt: "\<bar>mdet R - 1\<bar> \<le> tol" .
  have "concat (mat_to_rows (msub (mmul (mtranspose R) R) eye3))
      = [- (k * (y\<^sup>2 + z\<^sup>2)), k * (x * y), k * (x * z),
         k * (x * y), - (k * (x\<^sup>2 + z\<^sup>2)), k * (y * z),
         k * (x * z), k * (y * z), - (k * (x\<^sup>2 + y\<^sup>2))]"
    unfolding g v rodrigues_explicit by (simp add: eye3_def)
  then show ?thesis
    using e [OF xy] e [OF xz] e [OF yz] e [OF d1] e [OF d2] e [OF d3] dt
    by (simp add: near_rotation_def)
qed

lemma so3_exp_map1_near_rotation: "near_rotation (1 / 10 ^ 32) (so3_exp_map1 v)"
proof (cases "1 / 10 ^ 8 \<le> norm3 v \<or> v = (0, 0, 0)")
  case True
  then show ?thesis by (intro is_rotation_near so3_exp_map1_rotation) simp_all
next
  case False
  then have small: "norm3 v < 1 / 10 ^ 8" by simp
  let ?t = "norm3 v"
  define eps :: real where "eps = 1 / 10 ^ 8"
  have tc: "clamp_min (1 / 10 ^ 8) ?t = eps" using small by (simp add: clamp_min_def max_def eps_def)
  define a where "a = sin ?t / eps"
  define b where "b = (1 - cos ?t) / eps\<^sup>2"
  define k where "k = 2 * b - a\<^sup>2 - b\<^sup>2 * sqnorm3 v"
  have R: "so3_exp_map1 v = rodrigues a b v"
    unfolding so3_exp_map1_rodrigues tc a_def b_def ..
  have epos: "0 < eps" by (simp add: eps_def)
  have t0: "0 \<le> ?t" by (rule norm3_nonneg)
  have n: "sqnorm3 v = ?t\<^sup>2" by (simp add: norm3_sq)
  have sc: "(sin ?t)\<^sup>2 = 1 - (cos ?t)\<^sup>2" by (rule sin_squared_eq)
  define u where "u = 1 - cos ?t"
  have u0: "0 \<le> u" by (simp add: u_def)
  have uh: "u \<le> ?t\<^sup>2 / 2" using cos_ge_quadratic [of ?t] by (simp add: u_def)
  have ke: "k * eps\<^sup>2 = u\<^sup>2 * (1 - ?t\<^sup>2 / eps\<^sup>2)"
  proof -
    have "k * eps\<^sup>2 = 2 * (b * eps\<^sup>2) - a\<^sup>2 * eps\<^sup>2 - (b * eps\<^sup>2)\<^sup>2 * (?t\<^sup>2 / eps\<^sup>2)"
      unfolding k_def n using epos by (simp add: field_simps power2_eq_square)
    also have "b * eps\<^sup>2 = u" unfolding b_def u_def using epos by simp
    also have "a\<^sup>2 * eps\<^sup>2 = (sin ?t)\<^sup>2" unfolding a_def using epos by (simp add: power_divide)
    also have "2 * u - (sin ?t)\<^sup>2 - u\<^sup>2 * (?t\<^sup>2 / eps\<^sup>2) = u\<^sup>2 * (1 - ?t\<^sup>2 / eps\<^sup>2)"
      unfolding sc u_def by (simp add: power2_eq_square algebra_simps)
    finally show ?thesis .
  qed
  have tt: "?t\<^sup>2 \<le> eps\<^sup>2" using small t0 by (simp add: eps_def power_mono)
  then have r01: "0 \<le> 1 - ?t\<^sup>2 / eps\<^sup>2" "1 - ?t\<^sup>2 / eps\<^sup>2 \<le> 1" using epos by simp_all
  have "0 \<le> k * eps\<^sup>2" unfolding ke using r01 by simp
  then have k0: "0 \<le> k" using epos by (simp add: zero_le_mult_iff)
  have "k * eps\<^sup>2 \<le> u\<^sup>2 * 1" unfolding ke using r01 by (intro mult_left_mono) simp_all
  also have "\<dots> \<le> (?t\<^sup>2 / 2)\<^sup>2" using u0 uh by (simp add: power_mono)
  also have "\<dots> \<le> (eps\<^sup>2 / 2)\<^sup>2" using tt by (intro power_mono) simp_all
  finally have "k * eps\<^sup>2 \<le> (eps\<^sup>2 / 4) * eps\<^sup>2" by (simp add: power2_eq_square)
  moreover have "0 < eps\<^sup>2" using epos by simp
  ultimately have kup: "k \<le> eps\<^sup>2 / 4" by (rule mult_right_le_imp_le)
  have "k * sqnorm3 v \<le> (eps\<^sup>2 / 4) * eps\<^sup>2"
    unfolding n using kup tt k0 by (intro mult_mono) simp_all
  also have "\<dots> \<le> 1 / 10 ^ 32" by (simp add: eps_def power2_eq_square)
  finally have kn: "k * sqnorm3 v \<le> 1 / 10 ^ 32" .
  have g: "mmul (mtranspose (so3_exp_map1 v)) (so3_exp_map1 v) = rodrigues 0 k v"
    unfolding R rodrigues_gram k_def ..
  have d: "mdet (so3_exp_map1 v) = 1 - k * sqnorm3 v"
    unfolding R mdet_rodrigues k_def by (simp add: power2_eq_square algebra_simps)
  show ?thesis by (rule rodrigues_near [OF k0 kn g d])
qed

lemma forward_process_rotations:
  assumes "forward_process cfg x1 R0 t trans_init rot_init g = Inr ((eu, (Rt, epsilon2)), g')"
    and "row \<in> set Rt" and "R \<in> set row"
  shows "near_rotation (1 / 10 ^ 32) R"
proof -
  from assms(1) obtain g1 where "forward_rot cfg R0 t g1 = Inr ((Rt, epsilon2), g')"
    by (auto simp: forward_process_def bindE_eq_Inr)
  moreover obtain e g2 where "randn_like g1 (so3_log_map R0) = (e, g2)"
    by (cases "randn_like g1 (so3_log_map R0)")
  ultimately obtain vt where "Rt = so3_exp_map vt"
    by (auto simp: forward_rot_def bindE_eq_Inr Let_def split: if_splits)
  then show ?thesis
    using assms(2,3) so3_exp_map1_near_rotation by (auto simp: so3_exp_map_def)
qed

lemma sample_rot_step_rotations:
  assumes "sample_rot_step cfg t x2_t p2 rot_noise g = Inr (x2_new, g')"
    and "row \<in> set x2_new" and "R \<in> set row"
  shows "near_rotation (1 / 10 ^ 32) R"
proof -
  obtain eps g2 where
    "(case rot_noise of Some rn \<Rightarrow> (list_get rn t, g)
      | None \<Rightarrow> (case randn_like g (so3_log_map x2_t) of (e, g') \<Rightarrow> (Inr e, g'))) = (eps, g2)"
    by (cases "case rot_noise of Some rn \<Rightarrow> (list_get rn t, g)
      | None \<Rightarrow> (case randn_like g (so3_log_map x2_t) of (e, g') \<Rightarrow> (Inr e, g'))")
  then have "\<exists>v. x2_new = so3_exp_map v"
    using assms(1)
    by (auto simp: sample_rot_step_def bindE_eq_Inr Let_def split: if_splits)
  then show ?thesis
    using assms(2,3) so3_exp_map1_near_rotation by (auto simp: so3_exp_map_def)
qed

section \<open>The rotations of the sampler under the default configuration\<close>

lemma sample_trans_step_Inr:
  assumes cfg: "init nm model bs be sc T sl = Inr cfg"
    and len: "length t = length x1_t"
    and rng: "\<forall>i \<in> set t. 0 \<le> i \<and> i < int T"
    and p: "same_shape p1 x1_t" and nz: "same_shape noise x1_t"
  shows "\<exists>y. sample_trans_step cfg t x1_t p1 noise = Inr y"
proof -
  have r: "\<forall>i \<in> set t. 0 \<le> i \<and> nat i < T" using rng by auto
  have e: "\<exists>cs. extract_t a t = Inr cs" if "length a = T" for a
    using r that by (simp add: extract_t_def)
  obtain c1 where c1: "extract_t (x0_param1 cfg) t = Inr c1"
    using e init_rot_schedule(5) [OF cfg] by blast
  obtain c2 where c2: "extract_t (x0_param2 cfg) t = Inr c2"
    using e init_rot_schedule(6) [OF cfg] by blast
  obtain m1 where m1: "extract_t (mean_param1 cfg) t = Inr m1"
    using e init_rot_schedule(3) [OF cfg] by blast
  obtain m2 where m2: "extract_t (mean_param2 cfg) t = Inr m2"
    using e init_rot_schedule(4) [OF cfg] by blast
  obtain sg where sg: "extract_t (sigma cfg) t = Inr sg"
    using e init_rot_schedule(2) [OF cfg] by blast
  show ?thesis
    using c1 c2 m1 m2 sg len p nz
    by (simp add: sample_trans_step_def sample_x0_def x0_from_noise_def)
qed

lemma sample_step_default_first:
  assumes cfg: "default_ddpm nm zero_model = Inr cfg" and nm: "nm \<noteq> ''Unet''"
  shows "sample_step cfg 1 1 None None 29 (([[v]], [[R]]), g) = Inl NonFinite"
proof -
  have i: "init nm zero_model (1 / 10) 1 1 30 128 = Inr cfg"
    using cfg unfolding default_ddpm_def .
  have f: "model_name cfg \<noteq> ''Unet''" "score_model cfg = zero_model"
    using init_fields(8,9) [OF i] nm by simp_all
  have dec: "decode_scores cfg (zero_model (raw_of_vecs [[v]]) x2 t)
      = Inr ([[(0, 0, 0)]], [[(0, 0, 0)]])" for x2 t
    using decode_zero_model [of cfg "[[v]]" x2 t] f by simp
  obtain noise g1 where n: "randn_like g [[v]] = (noise, g1)"
    by (cases "randn_like g [[v]]")
  have ns: "same_shape noise [[v]]" using randn_like_shape [of g "[[v]]"] n by simp
  obtain y where tr: "sample_trans_step cfg [29] [[v]] [[(0, 0, 0)]] noise = Inr y"
    using sample_trans_step_Inr [OF i, of "[29]" "[[v]]" "[[(0, 0, 0)]]" noise] ns
    by (auto simp: same_shape_def)
  have "v0_reconstruct cfg 29 (so3_log_map [[R]]) [[(0, 0, 0)]] = Inl NonFinite"
    using default_alpha_bar_29 [OF cfg]
    by (simp add: v0_reconstruct_def list_get_def fsqrt_def tdiv_def same_shape_def
        so3_log_map_def tmap2_def)
  then have rot: "sample_rot_step cfg 29 [[R]] [[(0, 0, 0)]] None g1 = Inl NonFinite"
    by (simp add: sample_rot_step_def)
  show ?thesis
    using f dec n tr rot by (simp add: sample_step_def Let_def)
qed

lemma sample_loop_30:
  "sample_loop cfg B L tn rn 30 st
    = bindE (sample_step cfg B L tn rn 29 st) (sample_loop cfg B L tn rn 29)"
proof -
  have "(30 :: nat) = Suc 29" by simp
  then show ?thesis by (simp only: sample_loop.simps)
qed

text \<open>
  Claim C1 says that the exponential map returns a valid rotation for every tangent vector
  and that therefore every rotation produced by the forward process and by a step of the
  reverse sampler is a valid rotation. The first part holds (\<open>so3_exp_map1_near_rotation\<close>,
  \<open>so3_exp_map1_rotation\<close>), and so do the consequences for the forward process and for a
  sampler step that returns finite values (\<open>forward_process_rotations\<close>,
  \<open>sample_rot_step_rotations\<close>). For the object built with the default arguments and a score model that returns
  zero noise, the first step of \<open>sample\<close> (\<open>t = 29\<close>) divides by
  \<open>sqrt (alpha_bar_t[29]) = 0\<close>: the rotation it produces is not a finite matrix, and the
  whole call yields no finite pose, from every state of the generator.
\<close>

theorem sample_default_not_finite:
  assumes "default_ddpm nm zero_model = Inr cfg" and "nm \<noteq> ''Unet''"
  shows "sample cfg compose_se3 (1, 1) 30 None None None None g = Inl NonFinite"
proof -
  have "\<exists>v g1. randn g 1 1 = ([[v]], g1)"
    by (simp add: randn_def)
  then obtain v g1 where r1: "randn g 1 1 = ([[v]], g1)" by blast
  have "\<exists>w g2. randn g1 1 1 = ([[w]], g2)"
    by (simp add: randn_def)
  then obtain w g2 where r2: "randn g1 1 1 = ([[w]], g2)" by blast
  have n: "nat 30 = (30 :: nat)" by simp
  show ?thesis
    unfolding sample_def
    by (simp only: prod.case option.case r1 r2 n sample_loop_30 so3_exp_map_def list.map
        sample_step_default_first [OF assms] bindE_Inl)
qed

theorem sample_default_not_finite_witness:
  "default_ddpm ''mlp'' zero_model = Inr default_cfg
     \<and> sample default_cfg Pair (1, 1) 30 None None None None (\<lambda>_. 0) = Inl NonFinite"
proof -
  have "\<exists>cfg. default_ddpm ''mlp'' zero_model = Inr cfg
     \<and> sample cfg Pair (1, 1) 30 None None None None (\<lambda>_. 0) = Inl NonFinite"
  proof -
    obtain cfg where c: "default_ddpm ''mlp'' zero_model = Inr cfg"
      using default_ddpm_Inr by blast
    have "sample cfg Pair (1, 1) 30 None None None None (\<lambda>_. 0) = Inl NonFinite"
      by (rule sample_default_not_finite [OF c]) simp
    then show ?thesis using c by blast
  qed
  then obtain cfg where c: "default_ddpm ''mlp'' zero_model = Inr cfg"
    and p: "sample cfg Pair (1, 1) 30 None None None None (\<lambda>_. 0) = Inl NonFinite"
    by blast
  have e: "cfg = default_cfg" using c default_cfg_eq by simp
  show ?thesis using c p unfolding e by (rule conjI)
qed

section \<open>A run of the sampler with two steps and every noise supplied\<close>

text \<open>
  For the object with two timesteps and both betas one half, a score model that returns
  zeros, and the noise \<open>(1, 0, 0)\<close> supplied for the step \<open>t = 1\<close> of both branches, the
  sampler runs both steps, reads the supplied noises at \<open>t = 1\<close> and returns the rotation
  \<open>so3_exp_map1 (1, 0, 0)\<close>, from every state of the generator.
\<close>

lemma two_step_cfg_eq: "two_step_ddpm ''mlp'' zero_model = Inr two_step_cfg"
  using init_Inr [of 2 "''mlp''" zero_model "1 / 2" "1 / 2" 1 1]
  by (auto simp: two_step_cfg_def two_step_ddpm_def)

lemma init_betas:
  assumes "init nm model bs be sc T sl = Inr cfg"
  shows "beta_t cfg = linspace bs be T" and "alpha_t cfg = map (\<lambda>b. 1 - b) (linspace bs be T)"
  using assms by (auto simp: init_def Let_def split: if_splits)

lemma linspace_two: "linspace lo hi 2 = [lo, hi]"
proof -
  have "[0..<2] = [0, Suc 0]" by (simp add: upt_rec)
  thus ?thesis by (simp add: linspace_def)
qed

lemma two_step_schedule:
  assumes "two_step_ddpm nm model = Inr cfg"
  shows "beta_t cfg = [1 / 2, 1 / 2]" and "alpha_t cfg = [1 / 2, 1 / 2]"
    and "alpha_bar_t cfg = [1 / 2, 1 / 4]" and "trans_scale cfg = 1"
    and "model_name cfg = nm" and "score_model cfg = model"
proof -
  have i: "init nm model (1 / 2) (1 / 2) 1 2 1 = Inr cfg"
    using assms unfolding two_step_ddpm_def .
  show "beta_t cfg = [1 / 2, 1 / 2]" using init_betas(1) [OF i] by (simp add: linspace_two)
  show "alpha_t cfg = [1 / 2, 1 / 2]" using init_betas(2) [OF i] by (simp add: linspace_two)
  show "alpha_bar_t cfg = [1 / 2, 1 / 4]"
    using init_rot_schedule(1) [OF i] by (simp add: linspace_two cumprod_def)
  show "trans_scale cfg = 1" using init_rot_schedule(9) [OF i] .
  show "model_name cfg = nm" "score_model cfg = model" using init_fields(8,9) [OF i] by simp_all
qed

lemma sqrt_half_in_range:
  shows "arccos (1 - 1 / 10 ^ 7) \<le> sqrt (1 / 2)" and "sqrt (1 / 2) \<le> arccos (- 1 + 1 / 10 ^ 7)"
proof -
  let ?c = "arccos (1 - 1 / 10 ^ 7)"
  have "?c\<^sup>2 * (1 - 1 / 10 ^ 7)\<^sup>2 \<le> 2 * (1 / 10 ^ 7) - (1 / 10 ^ 7)\<^sup>2"
    by (rule arccos_sq_upper) simp_all
  hence "?c\<^sup>2 \<le> 1 / 2" by (simp add: power2_eq_square)
  hence "sqrt (?c\<^sup>2) \<le> sqrt (1 / 2)" by (simp only: real_sqrt_le_iff)
  thus "?c \<le> sqrt (1 / 2)" using angle_bounds(1) by simp
  have a: "sqrt (1 / 2) \<le> 1" using real_sqrt_le_mono [of "1 / 2" 1] by simp
  have b: "1 \<le> pi / 2" using pi_ge_two by simp
  have c: "pi / 2 \<le> arccos (- 1 + 1 / 10 ^ 7)"
    using arccos_le_arccos [of "- 1 + 1 / 10 ^ 7" 0] by simp
  show "sqrt (1 / 2) \<le> arccos (- 1 + 1 / 10 ^ 7)"
    by (rule order_trans [OF a order_trans [OF b c]])
qed

lemma mmul_eye3_eye3: "mmul eye3 eye3 = eye3"
  by (simp add: eye3_def)

lemma two_step_rot_1:
  assumes "two_step_ddpm nm model = Inr cfg"
  shows "sample_rot_step cfg (Suc 0) [[eye3]] [[(0, 0, 0)]] (Some [n0, [[(1, 0, 0)]]]) g
         = Inr ([[so3_exp_map1 (sqrt (1 / 2), 0, 0)]], g)"
  using two_step_schedule(1-3) [OF assms]
  by (simp add: sample_rot_step_def v0_reconstruct_def list_get_def fsqrt_def fdiv_def
      same_shape_def so3_log_map_def so3_log_map1_eye3 tmap2_def tdiv_def so3_exp_map_def
      so3_exp_map1_zero lambda_map_def smulv_zero mmul_eye3_eye3 Let_def)

lemma two_step_rot_0:
  assumes "two_step_ddpm nm model = Inr cfg"
  shows "sample_rot_step cfg 0 [[so3_exp_map1 (sqrt (1 / 2), 0, 0)]] [[(0, 0, 0)]] rn g
         = Inr ([[so3_exp_map1 (1, 0, 0)]], g)"
proof -
  have n: "norm3 (sqrt (1 / 2), 0, 0) = sqrt (1 / 2)" by simp
  have lo: "arccos (1 - 1 / 10 ^ 7) \<le> norm3 (sqrt (1 / 2), 0, 0)"
    unfolding n by (rule sqrt_half_in_range(1))
  have hi: "norm3 (sqrt (1 / 2), 0, 0) \<le> arccos (- 1 + 1 / 10 ^ 7)"
    unfolding n by (rule sqrt_half_in_range(2))
  have l: "so3_log_map1 (so3_exp_map1 (sqrt (1 / 2), 0, 0)) = (sqrt (1 / 2), 0, 0)"
    by (rule log_exp_in_range [OF lo hi])
  show ?thesis
    using two_step_schedule(1-3) [OF assms]
    by (simp add: sample_rot_step_def v0_reconstruct_def list_get_def fsqrt_def
      same_shape_def so3_log_map_def l tmap2_def tdiv_def so3_exp_map_def Let_def)
qed

lemma two_step_sample:
  assumes cfg: "two_step_ddpm nm zero_model = Inr cfg" and nm: "nm \<noteq> ''Unet''"
  shows "\<exists>tr. sample cfg Pair (1, 1) 2 (Some [[(0, 0, 0)]]) (Some [[eye3]])
            (Some [[[(0, 0, 0)]], [[(1, 0, 0)]]]) (Some [[[(0, 0, 0)]], [[(1, 0, 0)]]]) g
          = Inr (([[so3_exp_map1 (1, 0, 0)]], tr), g)"
proof -
  note f = two_step_schedule [OF cfg]
  have i: "init nm zero_model (1 / 2) (1 / 2) 1 2 1 = Inr cfg"
    using cfg unfolding two_step_ddpm_def .
  have dec: "decode_scores cfg (zero_model (raw_of_vecs [[v]]) x2 t)
      = Inr ([[(0, 0, 0)]], [[(0, 0, 0)]])" for v x2 t
    using decode_zero_model [of cfg "[[v]]" x2 t] f nm by simp
  obtain y1 where tr1: "sample_trans_step cfg [1] [[(0, 0, 0)]] [[(0, 0, 0)]] [[(1, 0, 0)]] = Inr y1"
    using sample_trans_step_Inr [OF i, of "[1]" "[[(0, 0, 0)]]" "[[(0, 0, 0)]]" "[[(1, 0, 0)]]"]
    by (auto simp: same_shape_def)
  have "same_shape y1 [[(0 :: real, 0 :: real, 0 :: real)]]"
    using tr1
    by (auto simp: sample_trans_step_def sample_x0_def x0_from_noise_def bindE_eq_Inr
        same_shape_def tmap2_def scale_batch_def extract_t_def split: if_splits)
  then obtain w where y1: "y1 = [[w]]"
    by (cases y1; cases "hd y1"; cases "tl (hd y1)") (auto simp: same_shape_def)
  obtain y0 where tr0: "sample_trans_step cfg [0] [[w]] [[(0, 0, 0)]] [[(0, 0, 0)]] = Inr y0"
    using sample_trans_step_Inr [OF i, of "[0]" "[[w]]" "[[(0, 0, 0)]]" "[[(0, 0, 0)]]"]
    by (auto simp: same_shape_def)
  have s1: "sample_step cfg (Suc 0) (Suc 0) (Some [[[(0, 0, 0)]], [[(1, 0, 0)]]]) (Some [[[(0, 0, 0)]], [[(1, 0, 0)]]])
        (Suc 0) (([[(0, 0, 0)]], [[eye3]]), g)
      = Inr (([[w]], [[so3_exp_map1 (sqrt (1 / 2), 0, 0)]]), g)"
    using nm by (simp add: sample_step_def f dec tr1 y1 two_step_rot_1 [OF cfg] list_get_def)
  have s0: "sample_step cfg (Suc 0) (Suc 0) (Some [[[(0, 0, 0)]], [[(1, 0, 0)]]]) (Some [[[(0, 0, 0)]], [[(1, 0, 0)]]])
        0 (([[w]], [[so3_exp_map1 (sqrt (1 / 2), 0, 0)]]), g)
      = Inr ((y0, [[so3_exp_map1 (1, 0, 0)]]), g)"
    using nm by (simp add: sample_step_def f dec tr0 two_step_rot_0 [OF cfg])
  have n: "(2 :: nat) = Suc (Suc 0)" by simp
  show ?thesis
    by (simp add: sample_def n s1 s0 f tdiv_def)
qed

theorem sample_overrides_deterministic_witness:
  "two_step_ddpm ''mlp'' zero_model = Inr two_step_cfg
   \<and> (\<exists>tr. sample two_step_cfg Pair (1, 1) 2 (Some [[(0, 0, 0)]]) (Some [[eye3]])
               (Some [[[(0, 0, 0)]], [[(1, 0, 0)]]]) (Some [[[(0, 0, 0)]], [[(1, 0, 0)]]]) (\<lambda>_. 0)
             = Inr (([[so3_exp_map1 (1, 0, 0)]], tr), (\<lambda>_. 0))
           \<and> sample two_step_cfg Pair (1, 1) 2 (Some [[(0, 0, 0)]]) (Some [[eye3]])
               (Some [[[(0, 0, 0)]], [[(1, 0, 0)]]]) (Some [[[(0, 0, 0)]], [[(1, 0, 0)]]]) real
             = Inr (([[so3_exp_map1 (1, 0, 0)]], tr), real))"
proof -
  obtain tr where s0: "sample two_step_cfg Pair (1, 1) 2 (Some [[(0, 0, 0)]]) (Some [[eye3]])
        (Some [[[(0, 0, 0)]], [[(1, 0, 0)]]]) (Some [[[(0, 0, 0)]], [[(1, 0, 0)]]]) (\<lambda>_. 0)
      = Inr (([[so3_exp_map1 (1, 0, 0)]], tr), (\<lambda>_. 0))"
    using two_step_sample [OF two_step_cfg_eq, of "\<lambda>_. 0"] by auto
  from sample_overrides_deterministic [of two_step_cfg Pair "(1, 1)" 2 "[[(0, 0, 0)]]" "[[eye3]]"
      "[[[(0, 0, 0)]], [[(1, 0, 0)]]]" "[[[(0, 0, 0)]], [[(1, 0, 0)]]]" real "\<lambda>_. 0"] s0
  have "sample two_step_cfg Pair (1, 1) 2 (Some [[(0, 0, 0)]]) (Some [[eye3]])
        (Some [[[(0, 0, 0)]], [[(1, 0, 0)]]]) (Some [[[(0, 0, 0)]], [[(1, 0, 0)]]]) real
      = Inr (([[so3_exp_map1 (1, 0, 0)]], tr), real)"
    by simp
  with s0 two_step_cfg_eq show ?thesis by blast
qed

end
